theory Spec2Isabelle
  imports Complex_Main "HOL-Library.Word"
begin

unbundle bit_operations_syntax

section \<open>The client state of App.jsx\<close>

text \<open>
  The component \<open>App\<close> keeps its state in React state cells (\<open>useState\<close>) and in
  mutable refs (\<open>useRef\<close>). Both are fields of one record; every handler takes the
  record and returns the updated one. Values read from the environment (the wall clock
  \<open>Date.now()\<close>, the device clock \<open>ctx.currentTime\<close>, the locale time string) are
  parameters of the handler that reads them. JavaScript numbers that hold times and
  samples are modelled as exact reals (a sample \<open>int16 / 32768\<close> is exact in a
  \<open>Float32Array\<close> as well), counters as naturals and integers.
\<close>

datatype msg_type = Info | Success | Warning | Failure

text \<open>The texts that the handlers pass to \<open>addMessage\<close>, one constructor per call site.\<close>

datatype msg_text =
    ConnectedHost
  | ConnectedClient
  | SharingStartedMsg string
  | SharingStoppedMsg
  | TakenOverMsg
  | ServerText string
  | SettingsChangedMsg string nat
  | AudioStartedMsg
  | AudioStoppedMsg
  | AudioEnabledMsg

record message =
  msg_body :: msg_text
  msg_kind :: msg_type
  timestamp :: string

record frame_info =
  width :: nat
  height :: nat
  size :: nat

record fps_counter =
  count :: nat
  lastTime :: int

datatype ctx_state = Suspended | Running | Closed

text \<open>An \<open>AudioBuffer\<close>: its duration is \<open>length / sampleRate\<close> seconds.\<close>

record audio_buffer =
  numberOfChannels :: nat
  buf_length :: nat
  buf_sampleRate :: nat
  channelData :: "real list list"

definition duration :: "audio_buffer \<Rightarrow> real" where
  "duration b = real (buf_length b) / real (buf_sampleRate b)"

text \<open>
  An \<open>AudioContext\<close> object: its state and the buffer sources started on it, each with
  the start time given to \<open>source.start\<close>, in call order.
\<close>

record audio_context =
  ctx_state :: ctx_state
  started :: "(real \<times> audio_buffer) list"

datatype log_entry =
    AudioPlayError
  | ResumeFailed
  | AudioContextError

datatype command = StopAudio | StartAudio

record app =
  isConnected :: bool
  isSharing :: bool
  currentFrame :: "string option"
  clientCount :: nat
  clientId :: string
  fps :: int
  messages :: "message list"
  frameInfo :: frame_info
  showSourcePicker :: bool
  currentSharerId :: "string option"
  isHost :: bool
  isAudioEnabled :: bool
  audioAvailable :: bool
  audioUnlocked :: bool
  audioContextRef :: "nat option"
  nextPlayTimeRef :: real
  isAudioEnabledRef :: bool
  currentSharerIdRef :: "string option"
  clientIdRef :: string
  audioInitializedRef :: bool
  fpsCounterRef :: fps_counter
  frameInfoRef :: frame_info
  contexts :: "audio_context list"
  console :: "log_entry list"
  emitted :: "command list"

text \<open>
  \<open>contexts\<close> is the store of every \<open>AudioContext\<close> constructed so far; an object is
  its index, so \<open>audioContextRef\<close> holds an index or \<open>None\<close> for \<open>null\<close>. \<open>console\<close>
  collects the \<open>console.error\<close> calls of the audio code and \<open>emitted\<close> the commands
  sent with \<open>socket.emit\<close> by \<open>toggleAudio\<close>.
\<close>

definition initial_app :: "int \<Rightarrow> app" where
  "initial_app mountTime =
     \<lparr> isConnected = False, isSharing = False, currentFrame = None, clientCount = 0,
       clientId = [], fps = 0, messages = [],
       frameInfo = \<lparr> width = 0, height = 0, size = 0 \<rparr>,
       showSourcePicker = False, currentSharerId = None, isHost = False,
       isAudioEnabled = True, audioAvailable = False, audioUnlocked = False,
       audioContextRef = None, nextPlayTimeRef = 0, isAudioEnabledRef = True,
       currentSharerIdRef = None, clientIdRef = [], audioInitializedRef = False,
       fpsCounterRef = \<lparr> count = 0, lastTime = mountTime \<rparr>,
       frameInfoRef = \<lparr> width = 0, height = 0, size = 0 \<rparr>,
       contexts = [], console = [], emitted = [] \<rparr>"

section \<open>The message log\<close>

text \<open>\<open>xs.slice(-n)\<close>: the last \<open>n\<close> elements, all of them when there are fewer.\<close>

definition slice_last :: "nat \<Rightarrow> 'a list \<Rightarrow> 'a list" where
  "slice_last n xs = drop (length xs - n) xs"

definition addMessage :: "msg_text \<Rightarrow> msg_type \<Rightarrow> string \<Rightarrow> app \<Rightarrow> app" where
  "addMessage body kind ts s =
     s\<lparr> messages :=
          slice_last 50 (messages s @ [\<lparr> msg_body = body, msg_kind = kind, timestamp = ts \<rparr>]) \<rparr>"



section \<open>Frame events and the throughput metric\<close>

record frame_data =
  image :: string
  frame_width :: nat
  frame_height :: nat
  frame_size :: nat

text \<open>\<open>Math.round\<close> rounds to the nearest integer, a half towards plus infinity.\<close>

definition Math_round :: "real \<Rightarrow> int" where
  "Math_round x = \<lfloor>x + 1 / 2\<rfloor>"

definition on_frame :: "int \<Rightarrow> frame_data \<Rightarrow> app \<Rightarrow> app" where
  "on_frame now d s =
     (let s1 = s\<lparr> currentFrame := Some (''data:image/jpeg;base64,'' @ image d),
                  frameInfoRef := \<lparr> width = frame_width d, height = frame_height d,
                                    size = frame_size d \<rparr> \<rparr>;
          count1 = count (fpsCounterRef s1) + 1;
          elapsed = now - lastTime (fpsCounterRef s1)
      in if elapsed \<ge> 1000
         then s1\<lparr> fps := Math_round (real count1 * 1000 / real_of_int elapsed),
                  frameInfo := frameInfoRef s1,
                  fpsCounterRef := \<lparr> count = 0, lastTime = now \<rparr> \<rparr>
         else s1\<lparr> fpsCounterRef := \<lparr> count = count1, lastTime = lastTime (fpsCounterRef s1) \<rparr> \<rparr>)"

text \<open>A run of frame events, each with the \<open>Date.now()\<close> read by its handler.\<close>

fun on_frames :: "(int \<times> frame_data) list \<Rightarrow> app \<Rightarrow> app" where
  "on_frames [] s = s"
| "on_frames ((now, d) # evs) s = on_frames evs (on_frame now d s)"

section \<open>Session events\<close>

definition on_connect :: "app \<Rightarrow> app" where
  "on_connect s = s\<lparr> isConnected := True \<rparr>"

definition on_disconnect :: "app \<Rightarrow> app" where
  "on_disconnect s = s\<lparr> isConnected := False, isSharing := False \<rparr>"

record connected_data =
  client_id :: string
  client_count :: nat
  current_sharer :: "string option"
  audio_available :: bool
  is_host :: bool
  is_sharing :: bool

definition on_connected :: "string \<Rightarrow> connected_data \<Rightarrow> app \<Rightarrow> app" where
  "on_connected ts d s =
     (let s1 = s\<lparr> clientId := client_id d, clientIdRef := client_id d,
                  clientCount := client_count d,
                  currentSharerId := current_sharer d,
                  currentSharerIdRef := current_sharer d,
                  audioAvailable := audio_available d, isHost := is_host d \<rparr>;
          s2 = (if is_sharing d then s1\<lparr> isSharing := True \<rparr> else s1)
      in addMessage (if is_host d then ConnectedHost else ConnectedClient) Info ts s2)"

definition on_client_count_updated :: "nat \<Rightarrow> app \<Rightarrow> app" where
  "on_client_count_updated n s = s\<lparr> clientCount := n \<rparr>"

definition on_stats :: "int \<Rightarrow> app \<Rightarrow> app" where
  "on_stats f s = (if f \<noteq> 0 then s\<lparr> fps := f \<rparr> else s)"

definition on_sharing_started :: "string \<Rightarrow> string option \<Rightarrow> string \<Rightarrow> app \<Rightarrow> app" where
  "on_sharing_started ts sharer_id target s =
     addMessage (SharingStartedMsg target) Success ts
       (s\<lparr> isSharing := True, showSourcePicker := False,
           currentSharerId := sharer_id, currentSharerIdRef := sharer_id,
           currentFrame := None \<rparr>)"

definition on_sharing_stopped :: "string \<Rightarrow> app \<Rightarrow> app" where
  "on_sharing_stopped ts s =
     addMessage SharingStoppedMsg Warning ts
       (s\<lparr> isSharing := False, currentFrame := None,
           currentSharerId := None, currentSharerIdRef := None \<rparr>)"

definition on_sharing_taken_over :: "string \<Rightarrow> app \<Rightarrow> app" where
  "on_sharing_taken_over ts s = addMessage TakenOverMsg Info ts s"

definition on_error :: "string \<Rightarrow> string \<Rightarrow> app \<Rightarrow> app" where
  "on_error ts m s = addMessage (ServerText m) Failure ts s"

definition on_settings_changed :: "string \<Rightarrow> string \<Rightarrow> nat \<Rightarrow> app \<Rightarrow> app" where
  "on_settings_changed ts resolution_limit f s =
     addMessage (SettingsChangedMsg resolution_limit f) Info ts s"

definition on_audio_started :: "string \<Rightarrow> app \<Rightarrow> app" where
  "on_audio_started ts s = addMessage AudioStartedMsg Success ts s"

definition on_audio_stopped :: "string \<Rightarrow> app \<Rightarrow> app" where
  "on_audio_stopped ts s = addMessage AudioStoppedMsg Warning ts s"

definition on_audio_error :: "string \<Rightarrow> string \<Rightarrow> app \<Rightarrow> app" where
  "on_audio_error ts m s = addMessage (ServerText m) Failure ts s"

text \<open>
  What \<open>ScreenView\<close> shows for a state: the block with the drawing surface is rendered
  exactly when \<open>currentFrame\<close> is truthy (not \<open>null\<close>, not the empty string).
\<close>

definition screen_frame_shown :: "app \<Rightarrow> bool" where
  "screen_frame_shown s = (case currentFrame s of None \<Rightarrow> False | Some f \<Rightarrow> f \<noteq> [])"

section \<open>Audio playback\<close>

text \<open>
  The payload of an audio event after \<open>atob\<close>: the decoded bytes, or \<open>Malformed\<close> when
  \<open>atob\<close> throws.
\<close>

datatype base64 = Malformed | Decoded "8 word list"

record audio_data =
  chunk_data :: base64
  chunk_channels :: nat
  chunk_sampleRate :: nat

text \<open>
  \<open>new Int16Array(bytes.buffer)\<close> reads the bytes pairwise, low byte first; it throws
  on an odd number of bytes, which \<open>decodeChunk\<close> checks before it calls this function.
\<close>

fun Int16Array :: "8 word list \<Rightarrow> 16 word list" where
  "Int16Array (lo # hi # bs) = (ucast lo OR push_bit 8 (ucast hi)) # Int16Array bs"
| "Int16Array bs = []"

datatype 'a outcome = Return | Throw | Value 'a

text \<open>
  The first half of \<open>playAudioChunk\<close>: from the event to the \<open>AudioBuffer\<close>.
  \<open>canCreate channels frameCount sampleRate\<close> says whether the browser's
  \<open>ctx.createBuffer\<close> accepts the arguments (it throws otherwise).
\<close>

definition decodeChunk :: "(nat \<Rightarrow> nat \<Rightarrow> nat \<Rightarrow> bool) \<Rightarrow> audio_data \<Rightarrow> audio_buffer outcome" where
  "decodeChunk canCreate d =
     (case chunk_data d of
        Malformed \<Rightarrow> Throw
      | Decoded bytes \<Rightarrow>
          if odd (length bytes) then Throw
          else
            let int16 = Int16Array bytes;
                float32 = map (\<lambda>w. real_of_int (sint w) / 32768) int16;
                channels = (if chunk_channels d = 0 then 2 else chunk_channels d);
                sampleRate = (if chunk_sampleRate d = 0 then 44100 else chunk_sampleRate d);
                frameCount = length float32 div channels
            in if frameCount \<le> 0 then Return
               else if \<not> canCreate channels frameCount sampleRate then Throw
               else Value \<lparr> numberOfChannels = channels, buf_length = frameCount,
                            buf_sampleRate = sampleRate,
                            channelData =
                              map (\<lambda>ch. map (\<lambda>i. float32 ! (i * channels + ch)) [0..<frameCount])
                                  [0..<channels] \<rparr>)"

definition BUFFER_TIME :: real where
  "BUFFER_TIME = 5 / 100"

text \<open>The two \<open>if\<close> statements that compute \<open>startTime\<close>, in the order of the source.\<close>

definition startTime :: "real \<Rightarrow> app \<Rightarrow> real" where
  "startTime currentTime s =
     (let startTime0 = nextPlayTimeRef s;
          startTime1 = (if \<not> audioInitializedRef s \<or> startTime0 < currentTime
                        then currentTime + BUFFER_TIME else startTime0)
      in if startTime1 > currentTime + 2 / 10 then currentTime + BUFFER_TIME else startTime1)"

definition ctx_lookup :: "app \<Rightarrow> nat \<Rightarrow> audio_context option" where
  "ctx_lookup s c = (if c < length (contexts s) then Some (contexts s ! c) else None)"

text \<open>
  \<open>playAudioChunk\<close>. \<open>currentTime\<close> is the value of \<open>ctx.currentTime\<close> read by the call.
  Every exception inside the \<open>try\<close> block ends in the \<open>catch\<close>, which logs it:
  a malformed payload, an odd byte count, a rejected \<open>createBuffer\<close>, and
  \<open>source.start\<close> with a negative time. The assignment to
  \<open>audioInitializedRef\<close> comes before \<open>source.start\<close> and therefore survives its throw.
\<close>

definition playAudioChunk ::
    "(nat \<Rightarrow> nat \<Rightarrow> nat \<Rightarrow> bool) \<Rightarrow> real \<Rightarrow> audio_data \<Rightarrow> app \<Rightarrow> app" where
  "playAudioChunk canCreate currentTime d s =
     (case audioContextRef s of
        None \<Rightarrow> s
      | Some c \<Rightarrow>
          (case ctx_lookup s c of
             None \<Rightarrow> s
           | Some ctx \<Rightarrow>
               if ctx_state ctx \<noteq> Running then s
               else
                 (case decodeChunk canCreate d of
                    Return \<Rightarrow> s
                  | Throw \<Rightarrow> s\<lparr> console := console s @ [AudioPlayError] \<rparr>
                  | Value audioBuffer \<Rightarrow>
                      let start = startTime currentTime s;
                          s1 = (if \<not> audioInitializedRef s \<or> nextPlayTimeRef s < currentTime
                                then s\<lparr> audioInitializedRef := True \<rparr> else s)
                      in if start < 0
                         then s1\<lparr> console := console s1 @ [AudioPlayError] \<rparr>
                         else s1\<lparr> contexts :=
                                    (contexts s1)[c := ctx\<lparr> started := started ctx @ [(start, audioBuffer)] \<rparr>],
                                  nextPlayTimeRef := start + duration audioBuffer \<rparr>)))"

text \<open>
  The handler of the \<open>audio\<close> event. \<open>playAudioChunkRef.current\<close> is set by an effect
  after the first render and never cleared, so the optional call always calls
  \<open>playAudioChunk\<close>.
\<close>

definition on_audio ::
    "(nat \<Rightarrow> nat \<Rightarrow> nat \<Rightarrow> bool) \<Rightarrow> real \<Rightarrow> audio_data \<Rightarrow> app \<Rightarrow> app" where
  "on_audio canCreate currentTime d s =
     (if \<not> isAudioEnabledRef s then s
      else if currentSharerIdRef s = Some (clientIdRef s) then s
      else playAudioChunk canCreate currentTime d s)"

text \<open>Every buffer source started so far, on any context.\<close>

definition scheduled :: "app \<Rightarrow> (real \<times> audio_buffer) list" where
  "scheduled s = concat (map started (contexts s))"

text \<open>The buffer sources started on the current output context.\<close>

definition playing :: "app \<Rightarrow> (real \<times> audio_buffer) list" where
  "playing s =
     (case audioContextRef s of
        None \<Rightarrow> []
      | Some c \<Rightarrow> (case ctx_lookup s c of None \<Rightarrow> [] | Some ctx \<Rightarrow> started ctx))"

section \<open>Unlocking and toggling audio\<close>

text \<open>
  \<open>new AudioContext(...)\<close> either throws (\<open>None\<close>) or gives a new object in some state
  (\<open>Some st\<close>); the new object is appended to the store.
\<close>

definition newAudioContext :: "ctx_state \<Rightarrow> app \<Rightarrow> app" where
  "newAudioContext st s =
     s\<lparr> audioContextRef := Some (length (contexts s)),
        contexts := contexts s @ [\<lparr> ctx_state = st, started = [] \<rparr>],
        nextPlayTimeRef := 0, audioInitializedRef := False \<rparr>"

text \<open>
  \<open>unlockAudio\<close> returns the new state and, when it called \<open>ctx.resume()\<close>, the context
  whose promise is now pending; the promise's callbacks are \<open>resume_then\<close> and
  \<open>resume_catch\<close>, which see that same context \<open>ctx\<close> (captured by the closure), not
  the current value of \<open>audioContextRef\<close>.
\<close>

definition unlockAudio :: "ctx_state option \<Rightarrow> app \<Rightarrow> app \<times> nat option" where
  "unlockAudio ctor s =
     (case (if audioContextRef s = None
            then map_option (\<lambda>st. newAudioContext st s) ctor else Some s) of
        None \<Rightarrow> (s\<lparr> console := console s @ [AudioContextError] \<rparr>, None)
      | Some s1 \<Rightarrow>
          (case audioContextRef s1 of
             None \<Rightarrow> (s1, None)
           | Some ctx \<Rightarrow>
               (case ctx_lookup s1 ctx of
                  None \<Rightarrow> (s1, None)
                | Some c \<Rightarrow>
                    if ctx_state c = Suspended then (s1, Some ctx)
                    else if ctx_state c = Running then (s1\<lparr> audioUnlocked := True \<rparr>, None)
                    else (s1, None))))"

definition resume_then :: "nat \<Rightarrow> app \<Rightarrow> app" where
  "resume_then ctx s =
     (case ctx_lookup s ctx of
        None \<Rightarrow> s
      | Some c \<Rightarrow> if ctx_state c = Running then s\<lparr> audioUnlocked := True \<rparr> else s)"

definition resume_catch :: "nat \<Rightarrow> app \<Rightarrow> app" where
  "resume_catch ctx s = s\<lparr> console := console s @ [ResumeFailed] \<rparr>"

text \<open>The browser changes the state of a context (resume completes, the device suspends it).\<close>

definition device_state :: "nat \<Rightarrow> ctx_state \<Rightarrow> app \<Rightarrow> app" where
  "device_state ctx st s =
     (case ctx_lookup s ctx of
        None \<Rightarrow> s
      | Some c \<Rightarrow> s\<lparr> contexts := (contexts s)[ctx := c\<lparr> ctx_state := st \<rparr>] \<rparr>)"

text \<open>
  \<open>toggleAudio\<close>. The socket exists from the first effect on, so the guard is
  \<open>isConnected\<close>. In the enabling branch the constructor is not inside a \<open>try\<close>: when
  it throws, the handler ends there, after the two assignments before it. The call of
  \<open>resume()\<close> in that branch has no callbacks and changes nothing in this state.
\<close>

definition toggleAudio :: "ctx_state option \<Rightarrow> string \<Rightarrow> app \<Rightarrow> app" where
  "toggleAudio ctor ts s =
     (if \<not> isConnected s then s
      else if isAudioEnabled s then
        let s1 = s\<lparr> isAudioEnabled := False, isAudioEnabledRef := False \<rparr>;
            s2 = (if currentSharerId s = Some (clientId s)
                  then s1\<lparr> emitted := emitted s1 @ [StopAudio] \<rparr> else s1);
            s3 = (case audioContextRef s2 of
                    None \<Rightarrow> s2
                  | Some ctx \<Rightarrow> (device_state ctx Closed s2)\<lparr> audioContextRef := None \<rparr>)
        in s3\<lparr> nextPlayTimeRef := 0, audioInitializedRef := False \<rparr>
      else
        let s1 = s\<lparr> isAudioEnabled := True, isAudioEnabledRef := True \<rparr>
        in case (if audioContextRef s1 = None
                 then map_option (\<lambda>st. newAudioContext st s1) ctor else Some s1) of
             None \<Rightarrow> s1
           | Some s2 \<Rightarrow>
               let s3 = (if currentSharerId s = Some (clientId s)
                         then s2\<lparr> emitted := emitted s2 @ [StartAudio] \<rparr> else s2)
               in addMessage AudioEnabledMsg Success ts s3)"

text \<open>
  The guards in front of the scheduler: audio enabled, the local participant not the
  sharer, and an output context that is running.
\<close>

definition gates_open :: "app \<Rightarrow> bool" where
  "gates_open s =
     (isAudioEnabledRef s \<and> currentSharerIdRef s \<noteq> Some (clientIdRef s) \<and>
      (case audioContextRef s of
         None \<Rightarrow> False
       | Some c \<Rightarrow> (case ctx_lookup s c of
                     None \<Rightarrow> False
                   | Some ctx \<Rightarrow> ctx_state ctx = Running)))"

definition chunk_duration :: "(nat \<Rightarrow> nat \<Rightarrow> nat \<Rightarrow> bool) \<Rightarrow> audio_data \<Rightarrow> real" where
  "chunk_duration canCreate d =
     (case decodeChunk canCreate d of Value b \<Rightarrow> duration b | Return \<Rightarrow> 0 | Throw \<Rightarrow> 0)"

section \<open>Events and runs\<close>

datatype event =
    Connect
  | Disconnect
  | Connected string connected_data
  | ClientCountUpdated nat
  | Frame int frame_data
  | Stats int
  | SharingStarted string "string option" string
  | SharingStopped string
  | SharingTakenOver string
  | ServerError string string
  | SettingsChanged string string nat
  | Audio real audio_data
  | AudioStarted string
  | AudioStopped string
  | AudioError string string
  | UnlockAudio "ctx_state option"
  | ResumeResolved nat
  | ResumeRejected nat
  | DeviceState nat ctx_state
  | ToggleAudio "ctx_state option" string

fun handle :: "(nat \<Rightarrow> nat \<Rightarrow> nat \<Rightarrow> bool) \<Rightarrow> event \<Rightarrow> app \<Rightarrow> app" where
  "handle cb Connect s = on_connect s"
| "handle cb Disconnect s = on_disconnect s"
| "handle cb (Connected ts d) s = on_connected ts d s"
| "handle cb (ClientCountUpdated n) s = on_client_count_updated n s"
| "handle cb (Frame now d) s = on_frame now d s"
| "handle cb (Stats f) s = on_stats f s"
| "handle cb (SharingStarted ts sharer_id target) s = on_sharing_started ts sharer_id target s"
| "handle cb (SharingStopped ts) s = on_sharing_stopped ts s"
| "handle cb (SharingTakenOver ts) s = on_sharing_taken_over ts s"
| "handle cb (ServerError ts m) s = on_error ts m s"
| "handle cb (SettingsChanged ts r f) s = on_settings_changed ts r f s"
| "handle cb (Audio currentTime d) s = on_audio cb currentTime d s"
| "handle cb (AudioStarted ts) s = on_audio_started ts s"
| "handle cb (AudioStopped ts) s = on_audio_stopped ts s"
| "handle cb (AudioError ts m) s = on_audio_error ts m s"
| "handle cb (UnlockAudio ctor) s = fst (unlockAudio ctor s)"
| "handle cb (ResumeResolved ctx) s = resume_then ctx s"
| "handle cb (ResumeRejected ctx) s = resume_catch ctx s"
| "handle cb (DeviceState ctx st) s = device_state ctx st s"
| "handle cb (ToggleAudio ctor ts) s = toggleAudio ctor ts s"

fun run :: "(nat \<Rightarrow> nat \<Rightarrow> nat \<Rightarrow> bool) \<Rightarrow> event list \<Rightarrow> app \<Rightarrow> app" where
  "run cb [] s = s"
| "run cb (e # es) s = run cb es (handle cb e s)"

section \<open>The H.264 ScreenView\<close>

text \<open>
  The second \<open>ScreenView\<close> component feeds every frame to one \<open>JMuxer\<close> instance bound
  to the \<open>video\<close> element. Its \<open>currentFrame\<close> prop is an object: \<open>frame_id\<close> stands
  for the identity of the object, which is what React compares in a dependency list,
  and \<open>frame_image\<close> is \<open>None\<close> when the field \<open>image\<close> is missing or the empty
  string, and otherwise what \<open>atob\<close> makes of it.
\<close>

record h264_frame =
  frame_id :: nat
  frame_image :: "base64 option"

record props =
  sv_isSharing :: bool
  sv_currentFrame :: "h264_frame option"

text \<open>
  A \<open>JMuxer\<close> instance, seen through the calls the component makes on it: whether
  \<open>destroy()\<close> has been called, and the arguments of the \<open>feed\<close> calls in call order.
\<close>

record decoder =
  destroy_called :: bool
  fed :: "8 word list list"

datatype view_log = InitError | FeedError

text \<open>What the library does during one commit: whether its constructor or \<open>feed\<close> throws.\<close>

record runtime =
  ctor_throws :: bool
  feed_throws :: bool

text \<open>
  The component between commits: the dependency values of the last commit, the refs, and
  the store of every decoder constructed so far (a decoder is its index).
\<close>

record screen_view =
  mounted :: bool
  dep_isSharing :: bool
  dep_currentFrame :: "h264_frame option"
  jmuxerRef :: "nat option"
  isH264Ready :: bool
  frameCountRef :: nat
  decoders :: "decoder list"
  view_console :: "view_log list"

definition initial_view :: screen_view where
  "initial_view =
     \<lparr> mounted = False, dep_isSharing = False, dep_currentFrame = None, jmuxerRef = None,
       isH264Ready = False, frameCountRef = 0, decoders = [], view_console = [] \<rparr>"

text \<open>
  The \<open>video\<close> element is part of the output exactly when \<open>currentFrame\<close> is not
  \<open>null\<close>, and React attaches \<open>videoRef\<close> before it runs the effects of the commit.
\<close>

definition videoRef :: "props \<Rightarrow> bool" where
  "videoRef p = (sv_currentFrame p \<noteq> None)"

definition init_effect :: "runtime \<Rightarrow> props \<Rightarrow> screen_view \<Rightarrow> screen_view" where
  "init_effect rt p v =
     (if sv_isSharing p \<and> sv_currentFrame p \<noteq> None \<and> videoRef p \<and> jmuxerRef v = None
      then if ctor_throws rt
           then v\<lparr> view_console := view_console v @ [InitError] \<rparr>
           else v\<lparr> jmuxerRef := Some (length (decoders v)),
                   decoders := decoders v @ [\<lparr> destroy_called = False, fed = [] \<rparr>],
                   isH264Ready := True \<rparr>
      else v)"

text \<open>
  The \<open>catch\<close> around \<open>destroy()\<close> is empty and the statements after it run in any
  case, so a throwing \<open>destroy\<close> leaves the component in the same state.
\<close>

definition cleanup_effect :: "props \<Rightarrow> screen_view \<Rightarrow> screen_view" where
  "cleanup_effect p v =
     (if \<not> sv_isSharing p
      then let v1 = (case jmuxerRef v of
                       None \<Rightarrow> v
                     | Some j \<Rightarrow>
                         v\<lparr> decoders := (decoders v)[j := (decoders v ! j)\<lparr> destroy_called := True \<rparr>],
                            jmuxerRef := None \<rparr>)
           in v1\<lparr> isH264Ready := False, frameCountRef := 0 \<rparr>
      else v)"

definition feed_effect :: "runtime \<Rightarrow> props \<Rightarrow> screen_view \<Rightarrow> screen_view" where
  "feed_effect rt p v =
     (case sv_currentFrame p of
        None \<Rightarrow> v
      | Some f \<Rightarrow>
          (case frame_image f of
             None \<Rightarrow> v
           | Some img \<Rightarrow>
               (case jmuxerRef v of
                  None \<Rightarrow> v
                | Some j \<Rightarrow>
                    (case img of
                       Malformed \<Rightarrow> v\<lparr> view_console := view_console v @ [FeedError] \<rparr>
                     | Decoded bytes \<Rightarrow>
                         let v1 = v\<lparr> decoders :=
                                       (decoders v)[j := (decoders v ! j)\<lparr> fed := fed (decoders v ! j) @ [bytes] \<rparr>] \<rparr>
                         in if feed_throws rt
                            then v1\<lparr> view_console := view_console v1 @ [FeedError] \<rparr>
                            else v1\<lparr> frameCountRef := frameCountRef v1 + 1 \<rparr>))))"

text \<open>
  One commit of the component with new props: React runs, in the order of their
  declaration, the effects whose dependency list changed (all of them at mount):
  initialisation on \<open>[isSharing, currentFrame]\<close>, cleanup on \<open>[isSharing]\<close>, feeding on
  \<open>[currentFrame]\<close>.
\<close>

definition commit :: "runtime \<Rightarrow> props \<Rightarrow> screen_view \<Rightarrow> screen_view" where
  "commit rt p v =
     (let sharing_changed = (\<not> mounted v \<or> dep_isSharing v \<noteq> sv_isSharing p);
          frame_changed = (\<not> mounted v \<or> dep_currentFrame v \<noteq> sv_currentFrame p);
          v1 = (if sharing_changed \<or> frame_changed then init_effect rt p v else v);
          v2 = (if sharing_changed then cleanup_effect p v1 else v1);
          v3 = (if frame_changed then feed_effect rt p v2 else v2)
      in v3\<lparr> mounted := True, dep_isSharing := sv_isSharing p,
              dep_currentFrame := sv_currentFrame p \<rparr>)"

fun commits :: "(runtime \<times> props) list \<Rightarrow> screen_view \<Rightarrow> screen_view" where
  "commits [] v = v"
| "commits ((rt, p) # cs) v = commits cs (commit rt p v)"

text \<open>A decoder is live when it has been constructed and \<open>destroy()\<close> has not been called.\<close>

definition live :: "screen_view \<Rightarrow> nat \<Rightarrow> bool" where
  "live v i = (i < length (decoders v) \<and> \<not> destroy_called (decoders v ! i))"

definition decoder_inv :: "screen_view \<Rightarrow> bool" where
  "decoder_inv v =
     ((\<forall>i \<in> {..<length (decoders v)}. live v i = (jmuxerRef v = Some i)) \<and>
      (case jmuxerRef v of
         None \<Rightarrow> True
       | Some j \<Rightarrow> j < length (decoders v) \<and> mounted v \<and> dep_isSharing v))"

definition payload_bytes :: "h264_frame \<Rightarrow> 8 word list option" where
  "payload_bytes f =
     (case frame_image f of
        None \<Rightarrow> None
      | Some Malformed \<Rightarrow> None
      | Some (Decoded bytes) \<Rightarrow> Some bytes)"

text \<open>Frames arriving while sharing: every frame is a new object.\<close>

fun fresh_frames :: "h264_frame option \<Rightarrow> h264_frame list \<Rightarrow> bool" where
  "fresh_frames prev [] = True"
| "fresh_frames prev (f # fs) = (prev \<noteq> Some f \<and> fresh_frames (Some f) fs)"

definition sharing_frame :: "runtime \<times> h264_frame \<Rightarrow> runtime \<times> props" where
  "sharing_frame c = (fst c, \<lparr> sv_isSharing = True, sv_currentFrame = Some (snd c) \<rparr>)"

definition inv0 :: "screen_view \<Rightarrow> bool" where
  "inv0 v = ((\<forall>i \<in> {..<length (decoders v)}. live v i = (jmuxerRef v = Some i)) \<and>
             (case jmuxerRef v of None \<Rightarrow> True | Some j \<Rightarrow> j < length (decoders v)))"

definition ok_runtime :: runtime where
  "ok_runtime = \<lparr> ctor_throws = False, feed_throws = False \<rparr>"

definition failing_ctor :: runtime where
  "failing_ctor = \<lparr> ctor_throws = True, feed_throws = False \<rparr>"

definition sps_unit :: "8 word list" where
  "sps_unit = [0, 0, 0, 1, 103]"

definition slice_unit :: "8 word list" where
  "slice_unit = [0, 0, 0, 1, 65]"

definition au1 :: h264_frame where
  "au1 = \<lparr> frame_id = 1, frame_image = Some (Decoded sps_unit) \<rparr>"

definition au2 :: h264_frame where
  "au2 = \<lparr> frame_id = 2, frame_image = Some (Decoded slice_unit) \<rparr>"

definition waiting_view :: screen_view where
  "waiting_view = commits [(ok_runtime, \<lparr> sv_isSharing = False, sv_currentFrame = None \<rparr>),
                           (ok_runtime, \<lparr> sv_isSharing = True, sv_currentFrame = None \<rparr>)]
                    initial_view"

definition decoding_view :: screen_view where
  "decoding_view = commits (map sharing_frame [(ok_runtime, au1), (ok_runtime, au2)]) waiting_view"

section \<open>Concrete sessions\<close>

text \<open>
  Inputs for the examples below: a browser whose \<open>createBuffer\<close> accepts the nominal
  ranges of the Web Audio API, a 20 ms chunk of stereo silence at 44100 Hz (882 frames,
  3528 bytes), a viewer that joined a running session and unlocked audio, and the
  events of a sharer who starts and stops.
\<close>

definition nominal_createBuffer :: "nat \<Rightarrow> nat \<Rightarrow> nat \<Rightarrow> bool" where
  "nominal_createBuffer ch n rate = (1 \<le> ch \<and> ch \<le> 32 \<and> 0 < n \<and> 8000 \<le> rate \<and> rate \<le> 96000)"

definition silence_20ms :: audio_data where
  "silence_20ms = \<lparr> chunk_data = Decoded (replicate 3528 0), chunk_channels = 2,
                    chunk_sampleRate = 44100 \<rparr>"

definition viewer_joined :: connected_data where
  "viewer_joined = \<lparr> client_id = ''def456'', client_count = 2, current_sharer = Some ''abc123'',
                     audio_available = True, is_host = False, is_sharing = True \<rparr>"

definition listener :: app where
  "listener = run nominal_createBuffer
                [Connect, Connected ''10:00:00'' viewer_joined, UnlockAudio (Some Running)]
                (initial_app 0)"

definition burst8 :: app where
  "burst8 = run nominal_createBuffer (replicate 8 (Audio 0 silence_20ms)) listener"

definition burst9 :: app where
  "burst9 = handle nominal_createBuffer (Audio 0 silence_20ms) burst8"

definition first_chunk :: app where
  "first_chunk = handle nominal_createBuffer (Audio 0 silence_20ms) listener"

definition takes_over :: app where
  "takes_over = handle nominal_createBuffer
                  (SharingStarted ''10:01:00'' (Some ''def456'') ''Monitor 2'') first_chunk"

definition sample_frame :: frame_data where
  "sample_frame = \<lparr> image = ''QUJD'', frame_width = 1920, frame_height = 1080, frame_size = 3 \<rparr>"

definition watching :: app where
  "watching = run nominal_createBuffer [Frame 500 sample_frame, Audio 0 silence_20ms] listener"

definition host_joined :: connected_data where
  "host_joined = \<lparr> client_id = ''abc123'', client_count = 1, current_sharer = None,
                   audio_available = True, is_host = True, is_sharing = False \<rparr>"

definition sharer_listening :: app where
  "sharer_listening = run nominal_createBuffer
                        [Connect, Connected ''10:00:00'' host_joined,
                         SharingStarted ''10:00:05'' (Some ''abc123'') ''Monitor 1'',
                         UnlockAudio (Some Running)]
                        (initial_app 0)"

definition scenario_B :: "event list" where
  "scenario_B = [Connect, Connected ''10:00:00'' host_joined,
                 SharingStarted ''10:00:05'' (Some ''abc123'') ''Monitor 1'',
                 Frame 100 sample_frame, SharingStopped ''10:00:09'']"

definition viewer_connected :: app where
  "viewer_connected = run nominal_createBuffer [Connect, Connected ''10:00:00'' viewer_joined]
                        (initial_app 0)"

definition unlock_requested :: app where
  "unlock_requested = fst (unlockAudio (Some Suspended) viewer_connected)"

section \<open>Properties of the message log\<close>





section \<open>Properties of the throughput metric\<close>

lemma on_frame_in_window:
  assumes "now - lastTime (fpsCounterRef s) < 1000"
  shows "fpsCounterRef (on_frame now d s)
           = \<lparr> count = count (fpsCounterRef s) + 1, lastTime = lastTime (fpsCounterRef s) \<rparr>"
    and "fps (on_frame now d s) = fps s"
  using assms by (simp_all add: on_frame_def Let_def)

lemma on_frame_publish:
  assumes "1000 \<le> now - lastTime (fpsCounterRef s)"
  shows "fpsCounterRef (on_frame now d s) = \<lparr> count = 0, lastTime = now \<rparr>"
    and "fps (on_frame now d s)
           = Math_round (real (count (fpsCounterRef s) + 1) * 1000
                          / real_of_int (now - lastTime (fpsCounterRef s)))"
  using assms by (simp_all add: on_frame_def Let_def)

lemma on_frames_in_window:
  assumes "\<forall>(t, d) \<in> set evs. t - lastTime (fpsCounterRef s) < 1000"
  shows "fpsCounterRef (on_frames evs s)
           = \<lparr> count = count (fpsCounterRef s) + length evs,
               lastTime = lastTime (fpsCounterRef s) \<rparr>
         \<and> fps (on_frames evs s) = fps s"
  using assms
proof (induction evs arbitrary: s)
  case Nil
  show ?case by simp
next
  case (Cons e evs)
  obtain t d where e: "e = (t, d)" by (cases e) auto
  from Cons.prems have t: "t - lastTime (fpsCounterRef s) < 1000"
    by (simp add: e)
  have rest: "\<forall>(t', d') \<in> set evs. t' - lastTime (fpsCounterRef (on_frame t d s)) < 1000"
    using Cons.prems by (simp add: on_frame_in_window(1) [OF t])
  show ?case
    using Cons.IH [OF rest] by (simp add: e on_frame_in_window [OF t])
qed

text \<open>
  C7: every frame event inside the window adds one to the counter and leaves the
  published value alone; the first frame event at least 1000 ms after the window start
  publishes \<open>round(count * 1000 / elapsedMs)\<close>, where \<open>count\<close> includes that event, and
  resets the counter to 0 and the window start to the time of the event. With the counter
  at 0 at the window start, \<open>N = length evs + 1\<close> events give \<open>round(N * 1000 / elapsedMs)\<close>.
\<close>

theorem fps_published_once_per_window:
  assumes "\<forall>(t, d) \<in> set evs. t - lastTime (fpsCounterRef s) < 1000"
    and "1000 \<le> now - lastTime (fpsCounterRef s)"
  shows "count (fpsCounterRef (on_frames evs s)) = count (fpsCounterRef s) + length evs
       \<and> fps (on_frames evs s) = fps s
       \<and> fps (on_frame now d (on_frames evs s))
           = Math_round (real (count (fpsCounterRef s) + length evs + 1) * 1000
                          / real_of_int (now - lastTime (fpsCounterRef s)))
       \<and> fpsCounterRef (on_frame now d (on_frames evs s)) = \<lparr> count = 0, lastTime = now \<rparr>"
proof -
  note w = on_frames_in_window [OF assms(1)]
  have late: "1000 \<le> now - lastTime (fpsCounterRef (on_frames evs s))"
    using assms(2) w by simp
  show ?thesis
    using w on_frame_publish [OF late, of d] by simp
qed

text \<open>
  Three frame events with the counter at 0: two inside the window and one 1100 ms after
  its start publish \<open>round(3 * 1000 / 1100) = 3\<close>.
\<close>

theorem fps_published_once_per_window_witness:
  "fps (on_frame 1100 sample_frame
          (on_frames [(100, sample_frame), (500, sample_frame)] (initial_app 0))) = 3
   \<and> fpsCounterRef (on_frame 1100 sample_frame
          (on_frames [(100, sample_frame), (500, sample_frame)] (initial_app 0)))
       = \<lparr> count = 0, lastTime = 1100 \<rparr>"
proof -
  have h1: "\<forall>(t, d) \<in> set [(100, sample_frame), (500, sample_frame)].
              t - lastTime (fpsCounterRef (initial_app 0)) < 1000"
    by (simp add: initial_app_def)
  have h2: "1000 \<le> 1100 - lastTime (fpsCounterRef (initial_app 0))"
    by (simp add: initial_app_def)
  show ?thesis
    using fps_published_once_per_window [OF h1 h2, of sample_frame]
    by (simp add: initial_app_def Math_round_def)
qed

section \<open>Properties of the audio gate\<close>

lemma addMessage_contexts: "contexts (addMessage b k ts s) = contexts s"
  by (simp add: addMessage_def)

lemma map_started_state_update:
  "map started (xs[c := (xs ! c)\<lparr> ctx_state := st \<rparr>]) = map started xs"
proof (cases "c < length xs")
  case True
  then show ?thesis by (simp add: map_update list_update_same_conv)
next
  case False
  then have "xs[c := (xs ! c)\<lparr> ctx_state := st \<rparr>] = xs"
    by (intro list_update_beyond) simp
  then show ?thesis by simp
qed

lemma scheduled_device_state: "scheduled (device_state c st s) = scheduled s"
  by (auto simp: device_state_def ctx_lookup_def scheduled_def map_started_state_update
           split: option.splits if_splits)

lemma scheduled_unlockAudio: "scheduled (fst (unlockAudio ctor s)) = scheduled s"
  by (cases ctor)
     (auto simp: unlockAudio_def newAudioContext_def scheduled_def
           split: option.splits if_splits)

lemma scheduled_toggleAudio: "scheduled (toggleAudio ctor ts s) = scheduled s"
  by (cases ctor)
     (auto simp: toggleAudio_def newAudioContext_def scheduled_def Let_def addMessage_contexts
                 device_state_def ctx_lookup_def map_started_state_update
           split: option.splits if_splits)

lemma on_audio_self_sharer:
  "currentSharerIdRef s = Some (clientIdRef s) \<Longrightarrow> on_audio cb t d s = s"
  by (simp add: on_audio_def)

lemma scheduled_other_events:
  "(\<And>t d. e \<noteq> Audio t d) \<Longrightarrow> scheduled (handle cb e s) = scheduled s"
proof (cases e)
  case (UnlockAudio ctor)
  then show ?thesis by (simp add: scheduled_unlockAudio)
next
  case (ToggleAudio ctor ts)
  then show ?thesis by (simp add: scheduled_toggleAudio)
next
  case (DeviceState c st)
  then show ?thesis by (simp add: scheduled_device_state)
next
  case (Audio t d)
  assume "\<And>t d. e \<noteq> Audio t d"
  with Audio show ?thesis by simp
qed (simp_all add: scheduled_def addMessage_contexts on_connect_def on_disconnect_def
        on_connected_def on_client_count_updated_def on_stats_def on_sharing_started_def
        on_sharing_stopped_def on_sharing_taken_over_def on_error_def on_frame_def
        on_settings_changed_def on_audio_started_def on_audio_stopped_def on_audio_error_def
        resume_then_def resume_catch_def Let_def split: option.splits)

text \<open>
  C1: when the local identity equals the sharer identity held in the refs at the moment an
  audio event arrives, the handler returns the state unchanged: the chunk is dropped
  before it is decoded and nothing is scheduled. The comparison is made on the state the
  event meets, so it holds again for every later chunk, and no other event schedules a
  buffer either.
\<close>

theorem self_sharer_audio_discarded:
  assumes "currentSharerIdRef s = Some (clientIdRef s)"
  shows "on_audio cb t d s = s
       \<and> scheduled (handle cb e s) = scheduled s
       \<and> run cb (map (\<lambda>(t, d). Audio t d) chunks) s = s"
proof -
  have a: "on_audio cb t d s = s" for t d
    using assms by (rule on_audio_self_sharer)
  have b: "scheduled (handle cb e s) = scheduled s"
  proof (cases "\<exists>t d. e = Audio t d")
    case True
    then show ?thesis using a by auto
  next
    case False
    then show ?thesis by (intro scheduled_other_events) auto
  qed
  have c: "run cb (map (\<lambda>(t, d). Audio t d) chunks) s = s"
    by (induction chunks) (auto simp: a)
  show ?thesis using a b c by simp
qed

section \<open>Properties of the playback scheduler\<close>

lemma Int16Array_length: "length (Int16Array bs) = length bs div 2"
  by (induction bs rule: Int16Array.induct) simp_all

lemma decodeChunk_Value:
  assumes "decodeChunk cb d = Value b"
  shows "0 < buf_length b" and "0 < buf_sampleRate b" and "0 < duration b"
proof -
  show l: "0 < buf_length b" and r: "0 < buf_sampleRate b"
    using assms
    by (auto simp: decodeChunk_def Let_def split: base64.splits if_splits)
  from l r show "0 < duration b"
    by (simp add: duration_def)
qed

lemma decodeChunk_ok:
  assumes "chunk_data d = Decoded bytes" and "even (length bytes)"
    and "chunk_channels d = ch" and "0 < ch" and "chunk_sampleRate d = rate" and "0 < rate"
    and "0 < length bytes div 2 div ch" and "cb ch (length bytes div 2 div ch) rate"
  shows "\<exists>b. decodeChunk cb d = Value b
             \<and> duration b = real (length bytes div 2 div ch) / real rate"
  using assms by (simp add: decodeChunk_def Let_def Int16Array_length duration_def)

lemma startTime_cases:
  "startTime now s =
     (if \<not> audioInitializedRef s \<or> nextPlayTimeRef s < now then now + 50 / 1000
      else if nextPlayTimeRef s > now + 200 / 1000 then now + 50 / 1000
      else nextPlayTimeRef s)"
  by (simp add: startTime_def BUFFER_TIME_def Let_def)

lemma startTime_nonneg: "0 \<le> now \<Longrightarrow> 0 \<le> startTime now s"
  by (simp add: startTime_cases)

lemma startTime_upper: "startTime now s \<le> now + 200 / 1000"
  by (simp add: startTime_cases)

lemma playAudioChunk_schedules:
  assumes "audioContextRef s = Some c" and "ctx_lookup s c = Some ctx"
    and "ctx_state ctx = Running" and "decodeChunk cb d = Value b" and "0 \<le> now"
  shows "contexts (playAudioChunk cb now d s)
           = (contexts s)[c := ctx\<lparr> started := started ctx @ [(startTime now s, b)] \<rparr>]"
    and "nextPlayTimeRef (playAudioChunk cb now d s) = startTime now s + duration b"
    and "audioInitializedRef (playAudioChunk cb now d s)"
    and "audioContextRef (playAudioChunk cb now d s) = Some c"
    and "isAudioEnabledRef (playAudioChunk cb now d s) = isAudioEnabledRef s"
    and "currentSharerIdRef (playAudioChunk cb now d s) = currentSharerIdRef s"
    and "clientIdRef (playAudioChunk cb now d s) = clientIdRef s"
  using assms startTime_nonneg [OF assms(5), of s]
  by (auto simp: playAudioChunk_def Let_def)

lemma gates_openD:
  assumes "gates_open s"
  obtains c ctx where "audioContextRef s = Some c" and "ctx_lookup s c = Some ctx"
    and "ctx_state ctx = Running" and "isAudioEnabledRef s"
    and "currentSharerIdRef s \<noteq> Some (clientIdRef s)"
  using assms by (auto simp: gates_open_def split: option.splits)

lemma on_audio_schedules:
  assumes "gates_open s" and "decodeChunk cb d = Value b" and "0 \<le> now"
  shows "playing (on_audio cb now d s) = playing s @ [(startTime now s, b)]"
    and "nextPlayTimeRef (on_audio cb now d s) = startTime now s + duration b"
    and "audioInitializedRef (on_audio cb now d s)"
    and "gates_open (on_audio cb now d s)"
proof -
  from assms(1) obtain c ctx where g: "audioContextRef s = Some c" "ctx_lookup s c = Some ctx"
    "ctx_state ctx = Running" "isAudioEnabledRef s" "currentSharerIdRef s \<noteq> Some (clientIdRef s)"
    by (rule gates_openD)
  have eq: "on_audio cb now d s = playAudioChunk cb now d s"
    using g by (simp add: on_audio_def)
  note p = playAudioChunk_schedules [OF g(1,2,3) assms(2,3)]
  have c: "c < length (contexts s)" and ctx: "contexts s ! c = ctx"
    using g(2) by (auto simp: ctx_lookup_def split: if_splits)
  have look: "ctx_lookup (playAudioChunk cb now d s) c
                = Some (ctx\<lparr> started := started ctx @ [(startTime now s, b)] \<rparr>)"
    using c by (simp add: ctx_lookup_def p(1))
  show "playing (on_audio cb now d s) = playing s @ [(startTime now s, b)]"
    by (simp add: eq playing_def p(4) look g)
  show "nextPlayTimeRef (on_audio cb now d s) = startTime now s + duration b"
    by (simp add: eq p(2))
  show "audioInitializedRef (on_audio cb now d s)"
    by (simp add: eq p(3))
  show "gates_open (on_audio cb now d s)"
    using g by (simp add: eq gates_open_def p look)
qed

lemma silence_20ms_decodes:
  "\<exists>b. decodeChunk nominal_createBuffer silence_20ms = Value b \<and> duration b = 20 / 1000"
  using decodeChunk_ok [of silence_20ms "replicate 3528 0" 2 44100 nominal_createBuffer]
  by (simp add: silence_20ms_def nominal_createBuffer_def)

lemma listener_ready:
  "gates_open listener" "\<not> audioInitializedRef listener" "nextPlayTimeRef listener = 0"
  "playing listener = []" "scheduled listener = []"
  by (simp_all add: listener_def viewer_joined_def initial_app_def on_connect_def
        on_connected_def unlockAudio_def newAudioContext_def ctx_lookup_def addMessage_def
        slice_last_def gates_open_def playing_def scheduled_def Let_def)

text \<open>
  C2: for a chunk that passes the guards (audio enabled, local participant not the sharer,
  context running, payload decoded into a buffer \<open>b\<close>) at device time \<open>now\<close>, the
  source is started at \<open>now + 50 ms\<close> when the clock is not initialized or the next start
  time lies before \<open>now\<close>, at \<open>now + 50 ms\<close> when the next start time lies more than
  200 ms after \<open>now\<close>, and at the next start time otherwise; the clock is initialized
  afterwards and the next start time is the start plus the duration of \<open>b\<close>. Three
  chunks of 20 ms arriving at \<open>now\<close>, \<open>now + 20 ms\<close> and \<open>now + 40 ms\<close> on a fresh
  clock start at \<open>now + 50 ms\<close>, \<open>now + 70 ms\<close> and \<open>now + 90 ms\<close>: each begins where
  the one before ends. The device clock of an \<open>AudioContext\<close> is never negative.
\<close>

theorem scheduler_start_time:
  assumes "gates_open s" and "decodeChunk cb d = Value b" and "0 \<le> now"
  shows "playing (on_audio cb now d s)
           = playing s @
               [(if \<not> audioInitializedRef s \<or> nextPlayTimeRef s < now then now + 50 / 1000
                 else if nextPlayTimeRef s > now + 200 / 1000 then now + 50 / 1000
                 else nextPlayTimeRef s, b)]
       \<and> nextPlayTimeRef (on_audio cb now d s)
           = (if \<not> audioInitializedRef s \<or> nextPlayTimeRef s < now then now + 50 / 1000
              else if nextPlayTimeRef s > now + 200 / 1000 then now + 50 / 1000
              else nextPlayTimeRef s) + duration b
       \<and> audioInitializedRef (on_audio cb now d s)
       \<and> (\<not> audioInitializedRef s \<and> duration b = 20 / 1000
            \<and> decodeChunk cb d2 = Value b2 \<and> duration b2 = 20 / 1000
            \<and> decodeChunk cb d3 = Value b3 \<longrightarrow>
          playing (on_audio cb (now + 40 / 1000) d3
                    (on_audio cb (now + 20 / 1000) d2 (on_audio cb now d s)))
            = playing s @ [(now + 50 / 1000, b), (now + 70 / 1000, b2), (now + 90 / 1000, b3)])"
proof -
  note first = on_audio_schedules [OF assms]
  have scenario: "playing (on_audio cb (now + 40 / 1000) d3
                    (on_audio cb (now + 20 / 1000) d2 (on_audio cb now d s)))
            = playing s @ [(now + 50 / 1000, b), (now + 70 / 1000, b2), (now + 90 / 1000, b3)]"
    if u: "\<not> audioInitializedRef s" and db: "duration b = 20 / 1000"
      and d2: "decodeChunk cb d2 = Value b2" and db2: "duration b2 = 20 / 1000"
      and d3: "decodeChunk cb d3 = Value b3"
  proof -
    let ?s1 = "on_audio cb now d s"
    let ?s2 = "on_audio cb (now + 20 / 1000) d2 ?s1"
    have n1: "nextPlayTimeRef ?s1 = now + 70 / 1000"
      using first(2) u db by (simp add: startTime_cases)
    have t2: "0 \<le> now + 20 / 1000" using assms(3) by simp
    note second = on_audio_schedules [OF first(4) d2 t2]
    have st2: "startTime (now + 20 / 1000) ?s1 = now + 70 / 1000"
      using first(3) n1 by (simp add: startTime_cases)
    have n2: "nextPlayTimeRef ?s2 = now + 90 / 1000"
      using second(2) st2 db2 by simp
    have t3: "0 \<le> now + 40 / 1000" using assms(3) by simp
    note third = on_audio_schedules [OF second(4) d3 t3]
    have st3: "startTime (now + 40 / 1000) ?s2 = now + 90 / 1000"
      using second(3) n2 by (simp add: startTime_cases)
    show ?thesis
      using first(1) second(1) third(1) u st2 st3 by (simp add: startTime_cases)
  qed
  show ?thesis
    using first scenario by (simp add: startTime_cases)
qed

text \<open>
  Scenario C: stereo chunks of 882 frames at 44100 Hz arriving at 0, 20 and 40 ms.
\<close>

theorem scheduler_start_time_witness:
  "\<exists>b. decodeChunk nominal_createBuffer silence_20ms = Value b
      \<and> playing (run nominal_createBuffer
                   [Audio 0 silence_20ms, Audio (20 / 1000) silence_20ms,
                    Audio (40 / 1000) silence_20ms] listener)
          = [(50 / 1000, b), (70 / 1000, b), (90 / 1000, b)]"
proof -
  from silence_20ms_decodes obtain b
    where b: "decodeChunk nominal_createBuffer silence_20ms = Value b"
      and db: "duration b = 20 / 1000"
    by blast
  have t: "(0::real) \<le> 0" by simp
  show ?thesis
    using scheduler_start_time [OF listener_ready(1) b t, of silence_20ms b silence_20ms b]
      b db listener_ready(2,4)
    by simp
qed

text \<open>
  C6: whenever an audio event schedules a buffer, the next start time it leaves behind is
  at most \<open>now + 200 ms + d\<close>, where \<open>d\<close> is the duration of that chunk. This holds in
  every state, hence after every sequence of earlier chunks.
\<close>

theorem backlog_bounded:
  assumes "scheduled (on_audio cb now d s) \<noteq> scheduled s"
  shows "nextPlayTimeRef (on_audio cb now d s) \<le> now + 200 / 1000 + chunk_duration cb d"
proof -
  have "on_audio cb now d s = s \<or> (\<exists>l. on_audio cb now d s = s\<lparr> console := l \<rparr>)
        \<or> (\<exists>l. on_audio cb now d s = s\<lparr> audioInitializedRef := True, console := l \<rparr>)
        \<or> (\<exists>b. decodeChunk cb d = Value b
                \<and> nextPlayTimeRef (on_audio cb now d s) = startTime now s + duration b)"
    by (auto simp: on_audio_def playAudioChunk_def Let_def split: option.splits outcome.splits)
  then consider "scheduled (on_audio cb now d s) = scheduled s"
    | b where "decodeChunk cb d = Value b"
        "nextPlayTimeRef (on_audio cb now d s) = startTime now s + duration b"
    by (auto simp: scheduled_def)
  then show ?thesis
  proof cases
    case 1
    with assms show ?thesis by simp
  next
    case 2
    then show ?thesis
      using startTime_upper [of now s] by (simp add: chunk_duration_def)
  qed
qed

lemma length_scheduled_append:
  assumes "c < length xs"
  shows "length (concat (map started (xs[c := (xs ! c)\<lparr> started := started (xs ! c) @ [x] \<rparr>])))
           = Suc (length (concat (map started xs)))"
proof -
  have "xs = take c xs @ (xs ! c) # drop (Suc c) xs"
    using assms by (simp add: id_take_nth_drop [symmetric])
  then have "length (concat (map started xs))
               = length (concat (map started (take c xs))) + length (started (xs ! c))
                 + length (concat (map started (drop (Suc c) xs)))"
    by (metis (no_types, lifting) add.assoc concat.simps(2) concat_append length_append
          list.simps(9) map_append)
  moreover have "xs[c := (xs ! c)\<lparr> started := started (xs ! c) @ [x] \<rparr>]
                   = take c xs @ (xs ! c)\<lparr> started := started (xs ! c) @ [x] \<rparr> # drop (Suc c) xs"
    using assms by (simp add: upd_conv_take_nth_drop)
  ultimately show ?thesis by simp
qed

lemma on_audio_scheduled_grows:
  assumes "gates_open s" and "decodeChunk cb d = Value b" and "0 \<le> now"
  shows "length (scheduled (on_audio cb now d s)) = Suc (length (scheduled s))"
proof -
  from assms(1) obtain c ctx where g: "audioContextRef s = Some c" "ctx_lookup s c = Some ctx"
    "ctx_state ctx = Running" "isAudioEnabledRef s" "currentSharerIdRef s \<noteq> Some (clientIdRef s)"
    by (rule gates_openD)
  have eq: "on_audio cb now d s = playAudioChunk cb now d s"
    using g by (simp add: on_audio_def)
  have c: "c < length (contexts s)" and ctx: "contexts s ! c = ctx"
    using g(2) by (auto simp: ctx_lookup_def split: if_splits)
  show ?thesis
    unfolding eq scheduled_def playAudioChunk_schedules(1) [OF g(1,2,3) assms(2,3)]
    using length_scheduled_append [OF c] ctx by simp
qed

text \<open>
  The first chunk of the viewer's session is scheduled and respects the bound.
\<close>

theorem backlog_bounded_witness:
  "scheduled (on_audio nominal_createBuffer 0 silence_20ms listener) \<noteq> scheduled listener
   \<and> nextPlayTimeRef (on_audio nominal_createBuffer 0 silence_20ms listener)
       \<le> 0 + 200 / 1000 + chunk_duration nominal_createBuffer silence_20ms"
proof -
  from silence_20ms_decodes obtain b
    where b: "decodeChunk nominal_createBuffer silence_20ms = Value b"
    by blast
  have h: "scheduled (on_audio nominal_createBuffer 0 silence_20ms listener) \<noteq> scheduled listener"
    using on_audio_scheduled_grows [OF listener_ready(1) b, of 0] by (auto simp: listener_ready(5))
  show ?thesis
    using h backlog_bounded [OF h] by simp
qed

lemma on_audio_clientIdRef: "clientIdRef (on_audio cb t d s) = clientIdRef s"
  by (simp add: on_audio_def playAudioChunk_def Let_def split: option.splits outcome.splits)

text \<open>
  The sharer itself, with audio unlocked and running: its own chunks change nothing. And a
  viewer whose first chunk was scheduled while somebody else was sharing: once a
  \<open>sharing_started\<close> event names the viewer as the sharer, the next chunk is dropped.
\<close>

theorem self_sharer_audio_discarded_witness:
  "currentSharerIdRef sharer_listening = Some (clientIdRef sharer_listening)
   \<and> on_audio nominal_createBuffer 0 silence_20ms sharer_listening = sharer_listening
   \<and> scheduled (handle nominal_createBuffer (Audio 0 silence_20ms) sharer_listening)
       = scheduled sharer_listening
   \<and> run nominal_createBuffer
        (map (\<lambda>(t, d). Audio t d) [(0, silence_20ms), (20 / 1000, silence_20ms)])
        sharer_listening = sharer_listening
   \<and> length (scheduled first_chunk) = 1
   \<and> currentSharerIdRef takes_over = Some (clientIdRef takes_over)
   \<and> on_audio nominal_createBuffer (20 / 1000) silence_20ms takes_over = takes_over"
proof -
  have h: "currentSharerIdRef sharer_listening = Some (clientIdRef sharer_listening)"
    by (simp add: sharer_listening_def host_joined_def initial_app_def on_connect_def
          on_connected_def on_sharing_started_def unlockAudio_def newAudioContext_def
          ctx_lookup_def addMessage_def Let_def)
  from silence_20ms_decodes obtain b
    where b: "decodeChunk nominal_createBuffer silence_20ms = Value b"
    by blast
  have one: "length (scheduled first_chunk) = 1"
    using on_audio_scheduled_grows [OF listener_ready(1) b, of 0]
    by (simp add: first_chunk_def listener_ready(5))
  have "clientIdRef listener = ''def456''"
    by (simp add: listener_def viewer_joined_def initial_app_def on_connect_def
          on_connected_def unlockAudio_def newAudioContext_def ctx_lookup_def addMessage_def
          Let_def)
  then have h2: "currentSharerIdRef takes_over = Some (clientIdRef takes_over)"
    by (simp add: takes_over_def first_chunk_def on_sharing_started_def addMessage_def
          on_audio_clientIdRef)
  show ?thesis
    using h h2 one
      self_sharer_audio_discarded [OF h, of nominal_createBuffer 0 silence_20ms
        "Audio 0 silence_20ms" "[(0, silence_20ms), (20 / 1000, silence_20ms)]"]
      self_sharer_audio_discarded [OF h2, of nominal_createBuffer "20 / 1000" silence_20ms
        "Audio 0 silence_20ms" "[]"]
    by auto
qed

lemma gapless_burst:
  assumes "decodeChunk cb d = Value b" and "0 \<le> now"
  shows "gates_open s \<Longrightarrow> audioInitializedRef s \<Longrightarrow> now \<le> nextPlayTimeRef s \<Longrightarrow>
         k = 0 \<or> nextPlayTimeRef s + real (k - 1) * duration b \<le> now + 200 / 1000 \<Longrightarrow>
         gates_open (run cb (replicate k (Audio now d)) s)
         \<and> audioInitializedRef (run cb (replicate k (Audio now d)) s)
         \<and> nextPlayTimeRef (run cb (replicate k (Audio now d)) s)
             = nextPlayTimeRef s + real k * duration b
         \<and> length (playing (run cb (replicate k (Audio now d)) s)) = length (playing s) + k"
proof (induction k arbitrary: s)
  case 0
  then show ?case by simp
next
  case (Suc k)
  note pos = decodeChunk_Value(3) [OF assms(1)]
  note step = on_audio_schedules [OF Suc.prems(1) assms]
  have "0 \<le> real k * duration b" using pos by simp
  with Suc.prems(4) have le: "nextPlayTimeRef s \<le> now + 200 / 1000"
    by simp
  have st: "startTime now s = nextPlayTimeRef s"
    using Suc.prems(2,3) le by (simp add: startTime_cases)
  have n1: "nextPlayTimeRef (on_audio cb now d s) = nextPlayTimeRef s + duration b"
    using step(2) st by simp
  have ge: "now \<le> nextPlayTimeRef (on_audio cb now d s)"
    using n1 pos Suc.prems(3) by simp
  have room: "k = 0 \<or> nextPlayTimeRef (on_audio cb now d s) + real (k - 1) * duration b
                \<le> now + 200 / 1000"
  proof (cases k)
    case 0
    then show ?thesis by simp
  next
    case (Suc j)
    with Suc.prems(4) n1 show ?thesis
      by (simp add: algebra_simps)
  qed
  from Suc.IH [OF step(4) step(3) ge room] step(1) n1
  show ?case by (simp add: algebra_simps)
qed

lemma burst8_clock:
  "gates_open burst8" "audioInitializedRef burst8" "nextPlayTimeRef burst8 = 210 / 1000"
  "length (playing burst8) = 8"
proof -
  from silence_20ms_decodes obtain b
    where b: "decodeChunk nominal_createBuffer silence_20ms = Value b"
      and db: "duration b = 20 / 1000"
    by blast
  let ?s1 = "on_audio nominal_createBuffer 0 silence_20ms listener"
  have t: "(0::real) \<le> 0" by simp
  note first = on_audio_schedules [OF listener_ready(1) b t]
  have n1: "nextPlayTimeRef ?s1 = 70 / 1000"
    using first(2) db listener_ready(2) by (simp add: startTime_cases)
  have b8: "burst8 = run nominal_createBuffer (replicate 7 (Audio 0 silence_20ms)) ?s1"
    by (simp add: burst8_def eval_nat_numeral)
  have "gates_open burst8 \<and> audioInitializedRef burst8
        \<and> nextPlayTimeRef burst8 = nextPlayTimeRef ?s1 + real 7 * duration b
        \<and> length (playing burst8) = length (playing ?s1) + 7"
    unfolding b8
    by (rule gapless_burst [OF b t first(4) first(3)]) (simp_all add: n1 db)
  then show "gates_open burst8" "audioInitializedRef burst8"
    "nextPlayTimeRef burst8 = 210 / 1000" "length (playing burst8) = 8"
    using n1 db first(1) listener_ready(4) by simp_all
qed

text \<open>
  C5 as stated fails: nine chunks of 20 ms handled at the same device time. After eight
  the next start time is 210 ms, more than 200 ms ahead, so the ninth is moved back to
  50 ms and leaves the next start time at 70 ms.
\<close>

theorem clock_decreases_on_resync:
  "audioInitializedRef burst8 \<and> length (playing burst9) = Suc (length (playing burst8))
   \<and> \<not> nextPlayTimeRef burst8 \<le> nextPlayTimeRef burst9"
proof -
  from silence_20ms_decodes obtain b
    where b: "decodeChunk nominal_createBuffer silence_20ms = Value b"
      and db: "duration b = 20 / 1000"
    by blast
  have t: "(0::real) \<le> 0" by simp
  note ninth = on_audio_schedules [OF burst8_clock(1) b t]
  have "nextPlayTimeRef burst9 = 70 / 1000"
    using ninth(2) burst8_clock(2,3) db by (simp add: burst9_def startTime_cases)
  then show ?thesis
    using ninth(1) burst8_clock by (simp add: burst9_def)
qed

text \<open>
  C5, amended: with the clock initialized, a scheduled chunk does not lower the next start
  time as long as that time is at most 200 ms ahead of the device clock on arrival; when
  it is further ahead, the scheduler resets it to \<open>now + 50 ms\<close> plus the duration of
  the chunk.
\<close>

theorem clock_monotone_without_resync:
  assumes "gates_open s" and "decodeChunk cb d = Value b" and "0 \<le> now"
    and "audioInitializedRef s"
  shows "(nextPlayTimeRef s \<le> now + 200 / 1000 \<longrightarrow>
            nextPlayTimeRef s \<le> nextPlayTimeRef (on_audio cb now d s))
       \<and> (nextPlayTimeRef s > now + 200 / 1000 \<longrightarrow>
            nextPlayTimeRef (on_audio cb now d s) = now + 50 / 1000 + duration b)"
  using on_audio_schedules(2) [OF assms(1,2,3)] decodeChunk_Value(3) [OF assms(2)] assms(4)
  by (auto simp: startTime_cases)

text \<open>
  Both cases of the amended statement: the second chunk of a session, and the ninth chunk
  of the burst.
\<close>

theorem clock_monotone_without_resync_witness:
  "nextPlayTimeRef first_chunk \<le> 20 / 1000 + 200 / 1000
   \<and> nextPlayTimeRef first_chunk
       \<le> nextPlayTimeRef (on_audio nominal_createBuffer (20 / 1000) silence_20ms first_chunk)
   \<and> nextPlayTimeRef burst8 > 0 + 200 / 1000
   \<and> nextPlayTimeRef (on_audio nominal_createBuffer 0 silence_20ms burst8)
       = 0 + 50 / 1000 + chunk_duration nominal_createBuffer silence_20ms"
proof -
  from silence_20ms_decodes obtain b
    where b: "decodeChunk nominal_createBuffer silence_20ms = Value b"
      and db: "duration b = 20 / 1000"
    by blast
  have t: "(0::real) \<le> 0" and t2: "(0::real) \<le> 20 / 1000" by simp_all
  note first = on_audio_schedules [OF listener_ready(1) b t]
  have n1: "nextPlayTimeRef first_chunk = 70 / 1000"
    using first(2) db listener_ready(2) by (simp add: first_chunk_def startTime_cases)
  have g1: "gates_open first_chunk" and i1: "audioInitializedRef first_chunk"
    using first(3,4) by (simp_all add: first_chunk_def)
  show ?thesis
    using clock_monotone_without_resync [OF g1 b t2 i1]
      clock_monotone_without_resync [OF burst8_clock(1) b t burst8_clock(2)]
      n1 burst8_clock(3) b
    by (simp add: chunk_duration_def)
qed

lemma on_frame_audio_fields:
  "audioContextRef (on_frame now d s) = audioContextRef s"
  "contexts (on_frame now d s) = contexts s"
  "isAudioEnabledRef (on_frame now d s) = isAudioEnabledRef s"
  "currentSharerIdRef (on_frame now d s) = currentSharerIdRef s"
  "clientIdRef (on_frame now d s) = clientIdRef s"
  "audioInitializedRef (on_frame now d s) = audioInitializedRef s"
  "nextPlayTimeRef (on_frame now d s) = nextPlayTimeRef s"
  "currentFrame (on_frame now d s) = Some (''data:image/jpeg;base64,'' @ image d)"
  by (simp_all add: on_frame_def Let_def)

lemma on_frame_ctx_lookup: "ctx_lookup (on_frame now d s) = ctx_lookup s"
  by (rule ext) (simp add: ctx_lookup_def on_frame_audio_fields)

lemma on_frame_gates: "gates_open (on_frame now d s) = gates_open s"
  by (simp add: gates_open_def on_frame_ctx_lookup on_frame_audio_fields
        cong: option.case_cong)

lemma playAudioChunk_currentFrame:
  "currentFrame (playAudioChunk cb now d s) = currentFrame s"
  by (simp add: playAudioChunk_def Let_def split: option.splits outcome.splits)

text \<open>
  C4 as stated fails: a viewer that has received a frame and scheduled one chunk, then
  loses the connection. The frame and the clock are as before the disconnect.
\<close>

theorem disconnect_keeps_frame_and_clock:
  "currentFrame (on_disconnect watching) = Some ''data:image/jpeg;base64,QUJD''
   \<and> currentFrame (on_disconnect watching) \<noteq> None
   \<and> nextPlayTimeRef (on_disconnect watching) = 70 / 1000
   \<and> nextPlayTimeRef (on_disconnect watching) \<noteq> 0
   \<and> audioInitializedRef (on_disconnect watching)"
proof -
  from silence_20ms_decodes obtain b
    where b: "decodeChunk nominal_createBuffer silence_20ms = Value b"
      and db: "duration b = 20 / 1000"
    by blast
  let ?s = "on_frame 500 sample_frame listener"
  have g: "gates_open ?s" and u: "\<not> audioInitializedRef ?s"
    using listener_ready(1,2)
    by (simp_all add: on_frame_gates on_frame_audio_fields)
  have t: "(0::real) \<le> 0" by simp
  note a = on_audio_schedules [OF g b t]
  have w: "watching = on_audio nominal_createBuffer 0 silence_20ms ?s"
    by (simp add: watching_def)
  have f: "currentFrame watching = Some ''data:image/jpeg;base64,QUJD''"
    by (simp add: w on_audio_def playAudioChunk_currentFrame on_frame_audio_fields
          sample_frame_def)
  have n: "nextPlayTimeRef watching = 70 / 1000"
    using a(2) u db by (simp add: w startTime_cases)
  show ?thesis
    using f n a(3) by (simp add: on_disconnect_def w)
qed

text \<open>
  C4, amended: the disconnect handler sets \<open>isConnected\<close> and \<open>isSharing\<close> to false;
  the playback clock (next start time and initialized flag) and the output context are
  left as they were.
\<close>

theorem disconnect_resets_flags_only:
  "\<not> isConnected (on_disconnect s) \<and> \<not> isSharing (on_disconnect s)
   \<and> nextPlayTimeRef (on_disconnect s) = nextPlayTimeRef s
   \<and> audioInitializedRef (on_disconnect s) = audioInitializedRef s
   \<and> audioContextRef (on_disconnect s) = audioContextRef s
   \<and> contexts (on_disconnect s) = contexts s"
  by (simp add: on_disconnect_def)

text \<open>
  C3 as stated fails on scenario B: the frame is cleared when sharing stops, and the late
  duplicate of the same payload becomes the displayed frame again.
\<close>

theorem late_frame_is_displayed:
  "currentFrame (run nominal_createBuffer scenario_B (initial_app 0)) = None
   \<and> \<not> isSharing (run nominal_createBuffer scenario_B (initial_app 0))
   \<and> currentFrame (run nominal_createBuffer (scenario_B @ [Frame 200 sample_frame]) (initial_app 0))
       = Some ''data:image/jpeg;base64,QUJD''
   \<and> screen_frame_shown (run nominal_createBuffer (scenario_B @ [Frame 200 sample_frame]) (initial_app 0))"
  by (simp add: scenario_B_def host_joined_def sample_frame_def initial_app_def
        on_connect_def on_connected_def on_sharing_started_def on_sharing_stopped_def
        on_frame_def addMessage_def screen_frame_shown_def Let_def)

text \<open>
  C3, amended: \<open>sharing_stopped\<close> clears the displayed frame; a frame event that arrives
  afterwards is accepted like any other and its payload becomes the displayed frame.
\<close>

theorem frame_events_not_gated:
  "currentFrame (on_sharing_stopped ts s) = None
   \<and> \<not> screen_frame_shown (on_sharing_stopped ts s)
   \<and> currentFrame (on_frame now d (on_sharing_stopped ts s))
       = Some (''data:image/jpeg;base64,'' @ image d)
   \<and> screen_frame_shown (on_frame now d (on_sharing_stopped ts s))"
  by (simp add: on_sharing_stopped_def on_frame_def addMessage_def screen_frame_shown_def
        Let_def)

section \<open>Properties of the activation gate\<close>

lemma unlockAudio_existing:
  assumes "audioContextRef s = Some c"
  shows "audioContextRef (fst (unlockAudio ctor s)) = Some c"
    and "contexts (fst (unlockAudio ctor s)) = contexts s"
  using assms by (auto simp: unlockAudio_def split: option.splits)

lemma unlockAudio_creates_only_if_absent:
  "contexts (fst (unlockAudio ctor s)) \<noteq> contexts s \<Longrightarrow> audioContextRef s = None"
  by (auto simp: unlockAudio_def split: option.splits if_splits)

lemma unlockAudio_existing_twice:
  assumes "audioContextRef s = Some c"
  shows "fst (unlockAudio ctor' (fst (unlockAudio ctor s))) = fst (unlockAudio ctor s)"
  using assms by (auto simp: unlockAudio_def ctx_lookup_def split: option.splits)

lemma unlockAudio_twice:
  assumes "audioContextRef s \<noteq> None \<or> ctor \<noteq> None"
  shows "fst (unlockAudio ctor' (fst (unlockAudio ctor s))) = fst (unlockAudio ctor s)"
proof (cases "audioContextRef s")
  case (Some c)
  then show ?thesis by (rule unlockAudio_existing_twice)
next
  case None
  with assms obtain st where st: "ctor = Some st" by auto
  have new: "audioContextRef (newAudioContext st s) = Some (length (contexts s))"
    by (simp add: newAudioContext_def)
  have "fst (unlockAudio ctor s) = fst (unlockAudio ctor' (newAudioContext st s))"
    using None st new by (auto simp: unlockAudio_def)
  then show ?thesis
    using unlockAudio_existing_twice [OF new] by simp
qed

lemma unlockAudio_confirms:
  assumes "\<not> audioUnlocked s" and "audioUnlocked (fst (unlockAudio ctor s))"
  shows "\<exists>c ctx. audioContextRef (fst (unlockAudio ctor s)) = Some c
               \<and> ctx_lookup (fst (unlockAudio ctor s)) c = Some ctx \<and> ctx_state ctx = Running"
  using assms
  by (cases ctor)
     (auto simp: unlockAudio_def newAudioContext_def ctx_lookup_def
           split: option.splits if_splits)

lemma unlockAudio_requested:
  "snd (unlockAudio ctor s) \<noteq> None \<Longrightarrow>
     audioUnlocked (fst (unlockAudio ctor s)) = audioUnlocked s"
  by (cases ctor)
     (auto simp: unlockAudio_def newAudioContext_def split: option.splits if_splits)

lemma resume_then_confirms:
  assumes "\<not> audioUnlocked s" and "audioUnlocked (resume_then c s)"
  shows "\<exists>ctx. ctx_lookup s c = Some ctx \<and> ctx_state ctx = Running"
  using assms by (auto simp: resume_then_def split: option.splits if_splits)

lemma audioUnlocked_addMessage: "audioUnlocked (addMessage b k ts s) = audioUnlocked s"
  by (simp add: addMessage_def)

lemma audioUnlocked_on_audio: "audioUnlocked (on_audio cb now d s) = audioUnlocked s"
  by (simp add: on_audio_def playAudioChunk_def Let_def split: option.splits outcome.splits)

lemma audioUnlocked_device_state: "audioUnlocked (device_state c st s) = audioUnlocked s"
  by (simp add: device_state_def split: option.splits)

lemma audioUnlocked_toggleAudio: "audioUnlocked (toggleAudio ctor ts s) = audioUnlocked s"
  by (cases ctor)
     (auto simp: toggleAudio_def newAudioContext_def audioUnlocked_addMessage
                 audioUnlocked_device_state Let_def
           split: option.splits)

lemma audioUnlocked_other_events:
  assumes "\<And>ctor. e \<noteq> UnlockAudio ctor" and "\<And>c. e \<noteq> ResumeResolved c"
  shows "audioUnlocked (handle cb e s) = audioUnlocked s"
proof (cases e)
  case (UnlockAudio ctor)
  with assms(1) [of ctor] show ?thesis by simp
next
  case (ResumeResolved c)
  with assms(2) [of c] show ?thesis by simp
next
  case (Audio now d)
  then show ?thesis by (simp add: audioUnlocked_on_audio)
next
  case (ToggleAudio ctor ts)
  then show ?thesis by (simp add: audioUnlocked_toggleAudio)
next
  case (DeviceState c st)
  then show ?thesis by (simp add: audioUnlocked_device_state)
qed (simp_all add: audioUnlocked_addMessage on_connect_def on_disconnect_def
        on_connected_def on_client_count_updated_def on_stats_def on_sharing_started_def
        on_sharing_stopped_def on_sharing_taken_over_def on_error_def on_frame_def
        on_settings_changed_def on_audio_started_def on_audio_stopped_def on_audio_error_def
        resume_catch_def Let_def)

lemma handle_confirms:
  assumes "\<not> audioUnlocked s" and "audioUnlocked (handle cb e s)"
  shows "\<exists>c ctx. ctx_lookup (handle cb e s) c = Some ctx \<and> ctx_state ctx = Running"
proof -
  consider ctor where "e = UnlockAudio ctor" | c where "e = ResumeResolved c"
    | "\<And>ctor. e \<noteq> UnlockAudio ctor" "\<And>c. e \<noteq> ResumeResolved c"
    by blast
  then show ?thesis
  proof cases
    case 1
    with assms unlockAudio_confirms [of s ctor] show ?thesis by auto
  next
    case 2
    with assms resume_then_confirms [of s c] show ?thesis
      by (auto simp: resume_then_def ctx_lookup_def split: option.splits if_splits)
  next
    case 3
    with assms audioUnlocked_other_events [of e cb s] show ?thesis by simp
  qed
qed

text \<open>
  C8: \<open>unlockAudio\<close> constructs a context only when \<open>audioContextRef\<close> is empty; with a
  context present it keeps that context and adds none to the store, and a second call
  after a call that found or constructed a context returns the state of the first.
  \<open>audioUnlocked\<close> turns true only in a state where a context is in state
  \<open>running\<close>: in \<open>unlockAudio\<close> when the context is running already, and in the
  callback of \<open>resume()\<close> when the context it was called on is running by then. A call
  that only requests \<open>resume()\<close> leaves \<open>audioUnlocked\<close> as it was, and no other
  event sets it.
\<close>

theorem unlock_reuses_context_and_waits_for_running:
  "(audioContextRef s = Some c \<longrightarrow>
      audioContextRef (fst (unlockAudio ctor s)) = Some c
      \<and> contexts (fst (unlockAudio ctor s)) = contexts s)
   \<and> (contexts (fst (unlockAudio ctor s)) \<noteq> contexts s \<longrightarrow> audioContextRef s = None)
   \<and> (audioContextRef s \<noteq> None \<or> ctor \<noteq> None \<longrightarrow>
        fst (unlockAudio ctor' (fst (unlockAudio ctor s))) = fst (unlockAudio ctor s))
   \<and> (\<not> audioUnlocked s \<and> audioUnlocked (fst (unlockAudio ctor s)) \<longrightarrow>
        (\<exists>c' ctx. audioContextRef (fst (unlockAudio ctor s)) = Some c'
                 \<and> ctx_lookup (fst (unlockAudio ctor s)) c' = Some ctx
                 \<and> ctx_state ctx = Running))
   \<and> (snd (unlockAudio ctor s) \<noteq> None \<longrightarrow>
        audioUnlocked (fst (unlockAudio ctor s)) = audioUnlocked s)
   \<and> (\<not> audioUnlocked s \<and> audioUnlocked (resume_then c s) \<longrightarrow>
        (\<exists>ctx. ctx_lookup s c = Some ctx \<and> ctx_state ctx = Running))
   \<and> (\<not> audioUnlocked s \<and> audioUnlocked (handle cb e s) \<longrightarrow>
        (\<exists>c' ctx. ctx_lookup (handle cb e s) c' = Some ctx \<and> ctx_state ctx = Running))"
  using unlockAudio_existing [of s c ctor] unlockAudio_creates_only_if_absent [of ctor s]
    unlockAudio_twice [of s ctor ctor'] unlockAudio_confirms [of s ctor]
    unlockAudio_requested [of ctor s] resume_then_confirms [of s c]
    handle_confirms [of s cb e]
  by blast

lemma unlock_requested_state:
  "audioContextRef unlock_requested = Some 0"
  "contexts unlock_requested = [\<lparr> ctx_state = Suspended, started = [] \<rparr>]"
  "\<not> audioUnlocked unlock_requested"
  "snd (unlockAudio (Some Suspended) viewer_connected) = Some 0"
  "audioContextRef viewer_connected = None"
  by (simp_all add: unlock_requested_def viewer_connected_def viewer_joined_def
        initial_app_def on_connect_def on_connected_def unlockAudio_def newAudioContext_def
        ctx_lookup_def addMessage_def Let_def)

text \<open>
  A viewer unlocks while the new context is still suspended: the request alone does not
  unlock, a second call reuses context 0, and the callback unlocks once the device has
  made the context running.
\<close>

theorem unlock_reuses_context_and_waits_for_running_witness:
  "audioContextRef unlock_requested = Some 0
   \<and> audioContextRef (fst (unlockAudio (Some Running) unlock_requested)) = Some 0
   \<and> contexts (fst (unlockAudio (Some Running) unlock_requested)) = contexts unlock_requested
   \<and> fst (unlockAudio (Some Running) unlock_requested) = unlock_requested
   \<and> snd (unlockAudio (Some Suspended) viewer_connected) = Some 0
   \<and> \<not> audioUnlocked unlock_requested
   \<and> \<not> audioUnlocked (resume_then 0 unlock_requested)
   \<and> audioUnlocked (resume_then 0 (device_state 0 Running unlock_requested))
   \<and> (\<exists>ctx. ctx_lookup (device_state 0 Running unlock_requested) 0 = Some ctx
             \<and> ctx_state ctx = Running)
   \<and> audioUnlocked (fst (unlockAudio (Some Running) viewer_connected))
   \<and> audioUnlocked (fst (unlockAudio None (device_state 0 Running unlock_requested)))"
proof -
  note u = unlock_requested_state
  let ?r = "device_state 0 Running unlock_requested"
  have r: "contexts ?r = [\<lparr> ctx_state = Running, started = [] \<rparr>]"
    "audioContextRef ?r = Some 0" "\<not> audioUnlocked ?r"
    using u(1,2,3) by (simp_all add: device_state_def ctx_lookup_def)
  have a: "audioUnlocked (resume_then 0 ?r)"
    using r by (simp add: resume_then_def ctx_lookup_def)
  have b: "\<not> audioUnlocked (resume_then 0 unlock_requested)"
    using u(2,3) by (simp add: resume_then_def ctx_lookup_def)
  have c: "audioUnlocked (fst (unlockAudio (Some Running) viewer_connected))"
    using u(5) by (simp add: unlockAudio_def newAudioContext_def ctx_lookup_def)
  have d: "audioUnlocked (fst (unlockAudio None ?r))"
    using r by (simp add: unlockAudio_def ctx_lookup_def)
  have e: "fst (unlockAudio (Some Suspended) viewer_connected) = unlock_requested"
    by (simp add: unlock_requested_def)
  show ?thesis
    using unlock_reuses_context_and_waits_for_running
            [of unlock_requested 0 "Some Running" "Some Running" nominal_createBuffer Connect]
          unlock_reuses_context_and_waits_for_running
            [of viewer_connected 0 "Some Suspended" "Some Running" nominal_createBuffer Connect]
          unlock_reuses_context_and_waits_for_running
            [of ?r 0 None None nominal_createBuffer "ResumeResolved 0"]
          u a b c d e r(3)
    by simp
qed

section \<open>Properties of the bitstream decoder\<close>

lemma decoder_inv_initial: "decoder_inv initial_view"
  by (simp add: decoder_inv_def initial_view_def)

lemma init_effect_inv0: "inv0 v \<Longrightarrow> inv0 (init_effect rt p v)"
  by (auto simp: inv0_def init_effect_def live_def nth_append less_Suc_eq split: option.splits)

lemma cleanup_effect_inv0: "inv0 v \<Longrightarrow> inv0 (cleanup_effect p v)"
  by (auto simp: inv0_def cleanup_effect_def live_def nth_list_update Let_def
           split: option.splits)

lemma feed_effect_inv0: "inv0 v \<Longrightarrow> inv0 (feed_effect rt p v)"
  by (auto simp: inv0_def feed_effect_def live_def nth_list_update Let_def
           split: option.splits base64.splits)

lemma init_effect_ref:
  "jmuxerRef (init_effect rt p v) \<noteq> jmuxerRef v \<Longrightarrow> sv_isSharing p"
  by (auto simp: init_effect_def split: if_splits)

lemma cleanup_effect_ref:
  "jmuxerRef (cleanup_effect p v) = (if sv_isSharing p then jmuxerRef v else None)"
  by (auto simp: cleanup_effect_def Let_def split: option.splits)

lemma feed_effect_ref: "jmuxerRef (feed_effect rt p v) = jmuxerRef v"
  by (auto simp: feed_effect_def Let_def split: option.splits base64.splits)

lemma decoder_inv_alt:
  "decoder_inv v = (inv0 v \<and> (jmuxerRef v \<noteq> None \<longrightarrow> mounted v \<and> dep_isSharing v))"
  by (auto simp: decoder_inv_def inv0_def split: option.splits)

lemma inv0_fields:
  "decoders v' = decoders v \<Longrightarrow> jmuxerRef v' = jmuxerRef v \<Longrightarrow> inv0 v' = inv0 v"
  by (simp add: inv0_def live_def cong: option.case_cong)

lemma commit_preserves_inv:
  assumes "decoder_inv v"
  shows "decoder_inv (commit rt p v)"
proof -
  define sharing_changed where "sharing_changed = (\<not> mounted v \<or> dep_isSharing v \<noteq> sv_isSharing p)"
  define frame_changed where "frame_changed = (\<not> mounted v \<or> dep_currentFrame v \<noteq> sv_currentFrame p)"
  define v1 where "v1 = (if sharing_changed \<or> frame_changed then init_effect rt p v else v)"
  define v2 where "v2 = (if sharing_changed then cleanup_effect p v1 else v1)"
  define v3 where "v3 = (if frame_changed then feed_effect rt p v2 else v2)"
  have c: "commit rt p v = v3\<lparr> mounted := True, dep_isSharing := sv_isSharing p,
              dep_currentFrame := sv_currentFrame p \<rparr>"
    by (simp add: commit_def Let_def v3_def v2_def v1_def frame_changed_def sharing_changed_def)
  from assms have i: "inv0 v" and m: "jmuxerRef v \<noteq> None \<longrightarrow> mounted v \<and> dep_isSharing v"
    by (simp_all add: decoder_inv_alt)
  have i1: "inv0 v1" using i by (simp add: v1_def init_effect_inv0)
  have i2: "inv0 v2" using i1 by (simp add: v2_def cleanup_effect_inv0)
  have i3: "inv0 v3" using i2 by (simp add: v3_def feed_effect_inv0)
  have r3: "jmuxerRef v3 = jmuxerRef v2" by (simp add: v3_def feed_effect_ref)
  have "sv_isSharing p" if "jmuxerRef v3 \<noteq> None"
  proof (rule ccontr)
    assume n: "\<not> sv_isSharing p"
    have r1: "jmuxerRef v1 = jmuxerRef v"
      using n init_effect_ref [of rt p v] by (auto simp: v1_def)
    show False
    proof (cases sharing_changed)
      case True
      then have "jmuxerRef v2 = None" using n by (simp add: v2_def cleanup_effect_ref)
      with that r3 show False by simp
    next
      case False
      then have "jmuxerRef v2 = jmuxerRef v" using r1 by (simp add: v2_def)
      with that r3 m have "mounted v \<and> dep_isSharing v" by simp
      with False n show False by (simp add: sharing_changed_def)
    qed
  qed
  moreover have "inv0 (commit rt p v)"
    using i3 inv0_fields [of "commit rt p v" v3] by (simp add: c)
  ultimately show ?thesis
    by (auto simp: decoder_inv_alt c)
qed

lemma commits_preserve_inv: "decoder_inv v \<Longrightarrow> decoder_inv (commits cs v)"
  by (induction cs arbitrary: v) (auto simp: commit_preserves_inv)

lemma at_most_one_live:
  assumes "decoder_inv v" and "live v i" and "live v j"
  shows "i = j"
  using assms by (auto simp: decoder_inv_def live_def)

lemma effect_lengths:
  "length (decoders (cleanup_effect p v)) = length (decoders v)"
  "length (decoders (feed_effect rt p v)) = length (decoders v)"
  by (auto simp: cleanup_effect_def feed_effect_def Let_def split: option.splits base64.splits)

lemma init_effect_length:
  "length (decoders (init_effect rt p v)) \<noteq> length (decoders v) \<Longrightarrow>
     sv_isSharing p \<and> sv_currentFrame p \<noteq> None \<and> jmuxerRef v = None"
  by (auto simp: init_effect_def split: if_splits)

lemma commit_creates_only_on_frame:
  assumes "length (decoders (commit rt p v)) \<noteq> length (decoders v)"
  shows "sv_isSharing p \<and> sv_currentFrame p \<noteq> None \<and> jmuxerRef v = None"
proof -
  have "length (decoders (commit rt p v)) = length (decoders v)
        \<or> length (decoders (commit rt p v)) = length (decoders (init_effect rt p v))"
    by (simp add: commit_def Let_def effect_lengths)
  with assms show ?thesis
    using init_effect_length [of rt p v] by auto
qed

lemma commit_at_mount:
  "commit rt \<lparr> sv_isSharing = False, sv_currentFrame = None \<rparr> initial_view
     = initial_view\<lparr> mounted := True \<rparr>"
  by (simp add: commit_def initial_view_def init_effect_def cleanup_effect_def
        feed_effect_def videoRef_def Let_def)

lemma commit_feeds_existing:
  assumes "jmuxerRef v = Some j" and "fresh_frames (dep_currentFrame v) [f]"
  shows "jmuxerRef (commit rt \<lparr> sv_isSharing = True, sv_currentFrame = Some f \<rparr> v) = Some j"
    and "decoders (commit rt \<lparr> sv_isSharing = True, sv_currentFrame = Some f \<rparr> v)
           = (case payload_bytes f of
                None \<Rightarrow> decoders v
              | Some bytes \<Rightarrow>
                  (decoders v)[j := (decoders v ! j)\<lparr> fed := fed (decoders v ! j) @ [bytes] \<rparr>])"
    and "dep_currentFrame (commit rt \<lparr> sv_isSharing = True, sv_currentFrame = Some f \<rparr> v) = Some f"
  using assms
  by (auto simp: commit_def init_effect_def cleanup_effect_def feed_effect_def Let_def
        payload_bytes_def split: option.splits base64.splits)

lemma commit_first_frame:
  assumes "jmuxerRef v = None" and "fresh_frames (dep_currentFrame v) [f]"
    and "\<not> ctor_throws rt"
  shows "jmuxerRef (commit rt \<lparr> sv_isSharing = True, sv_currentFrame = Some f \<rparr> v)
           = Some (length (decoders v))"
    and "decoders (commit rt \<lparr> sv_isSharing = True, sv_currentFrame = Some f \<rparr> v)
           = decoders v @ [\<lparr> destroy_called = False,
                             fed = (case payload_bytes f of None \<Rightarrow> [] | Some bytes \<Rightarrow> [bytes]) \<rparr>]"
    and "dep_currentFrame (commit rt \<lparr> sv_isSharing = True, sv_currentFrame = Some f \<rparr> v) = Some f"
  using assms
  by (auto simp: commit_def init_effect_def cleanup_effect_def feed_effect_def Let_def
        videoRef_def payload_bytes_def split: option.splits base64.splits)

lemma commit_ctor_fails:
  assumes "jmuxerRef v = None" and "fresh_frames (dep_currentFrame v) [f]"
    and "ctor_throws rt"
  shows "commit rt \<lparr> sv_isSharing = True, sv_currentFrame = Some f \<rparr> v
           = v\<lparr> view_console := view_console v @ [InitError], mounted := True,
                dep_isSharing := True, dep_currentFrame := Some f \<rparr>"
  using assms
  by (auto simp: commit_def init_effect_def cleanup_effect_def feed_effect_def Let_def
        videoRef_def split: option.splits base64.splits)

lemma feed_run_existing:
  "jmuxerRef v = Some j \<Longrightarrow> j < length (decoders v) \<Longrightarrow>
   fresh_frames (dep_currentFrame v) (map snd cs) \<Longrightarrow>
     jmuxerRef (commits (map sharing_frame cs) v) = Some j
     \<and> decoders (commits (map sharing_frame cs) v)
         = (decoders v)[j := (decoders v ! j)\<lparr> fed := fed (decoders v ! j)
                                   @ List.map_filter payload_bytes (map snd cs) \<rparr>]"
proof (induction cs arbitrary: v)
  case Nil
  then show ?case by (simp add: List.map_filter_simps)
next
  case (Cons c cs)
  obtain rt f where c: "c = (rt, f)" by (cases c) auto
  let ?v = "commit rt \<lparr> sv_isSharing = True, sv_currentFrame = Some f \<rparr> v"
  from Cons.prems(3) have fr: "fresh_frames (dep_currentFrame v) [f]"
    and rest: "fresh_frames (Some f) (map snd cs)"
    by (simp_all add: c)
  note step = commit_feeds_existing [OF Cons.prems(1) fr, of rt]
  have len: "j < length (decoders ?v)"
    using Cons.prems(2) by (simp add: step(2) split: option.splits)
  have rest': "fresh_frames (dep_currentFrame ?v) (map snd cs)"
    using rest by (simp add: step(3))
  from Cons.IH [OF step(1) len rest'] Cons.prems(2)
  show ?case
    by (auto simp: c sharing_frame_def step(2) List.map_filter_simps split: option.splits)
qed

lemma feed_run:
  assumes "jmuxerRef v = None" and "\<not> ctor_throws rt"
    and "fresh_frames (dep_currentFrame v) (f # map snd cs)"
  shows "jmuxerRef (commits (map sharing_frame ((rt, f) # cs)) v) = Some (length (decoders v))"
    and "decoders (commits (map sharing_frame ((rt, f) # cs)) v)
           = decoders v @ [\<lparr> destroy_called = False,
                             fed = List.map_filter payload_bytes (f # map snd cs) \<rparr>]"
proof -
  let ?v = "commit rt \<lparr> sv_isSharing = True, sv_currentFrame = Some f \<rparr> v"
  from assms(3) have fr: "fresh_frames (dep_currentFrame v) [f]"
    and rest: "fresh_frames (Some f) (map snd cs)"
    by simp_all
  note first = commit_first_frame [OF assms(1) fr assms(2)]
  have len: "length (decoders v) < length (decoders ?v)"
    by (simp add: first(2))
  have rest': "fresh_frames (dep_currentFrame ?v) (map snd cs)"
    using rest by (simp add: first(3))
  note r = feed_run_existing [OF first(1) len rest']
  show "jmuxerRef (commits (map sharing_frame ((rt, f) # cs)) v) = Some (length (decoders v))"
    using r by (simp add: sharing_frame_def)
  show "decoders (commits (map sharing_frame ((rt, f) # cs)) v)
           = decoders v @ [\<lparr> destroy_called = False,
                             fed = List.map_filter payload_bytes (f # map snd cs) \<rparr>]"
    using r by (auto simp: sharing_frame_def first(2) List.map_filter_simps split: option.splits)
qed

lemma commit_stop:
  assumes "decoder_inv v" and "\<not> sv_isSharing p"
  shows "jmuxerRef (commit rt p v) = None" and "\<not> live (commit rt p v) i"
proof -
  note inv = commit_preserves_inv [OF assms(1), of rt p]
  have d: "dep_isSharing (commit rt p v) = sv_isSharing p"
    by (simp add: commit_def Let_def)
  show n: "jmuxerRef (commit rt p v) = None"
    using inv d assms(2) by (auto simp: decoder_inv_def split: option.splits)
  show "\<not> live (commit rt p v) i"
    using inv n by (auto simp: decoder_inv_def live_def)
qed

text \<open>
  C9: no decoder exists after the mount of the component in the initial state of the
  application, and a commit constructs one only when it brings a frame while sharing and
  none is referenced. In every state reached from the initial one at most one decoder is
  live. Frames committed one after the other while sharing, with no decoder referenced
  before and a constructor that does not throw on the first, leave exactly one new
  decoder, referenced by \<open>jmuxerRef\<close>, that has been fed the decodable payloads in the
  order of the frames. A commit with \<open>isSharing\<close> false leaves no reference and no live
  decoder. A throwing constructor only adds an entry to the error log: the component
  stays as it was, without a decoder, and the next frame tries again.
\<close>

theorem decoder_lifecycle:
  "jmuxerRef (commit rt \<lparr> sv_isSharing = False, sv_currentFrame = None \<rparr> initial_view) = None
   \<and> decoders (commit rt \<lparr> sv_isSharing = False, sv_currentFrame = None \<rparr> initial_view) = []
   \<and> (length (decoders (commit rt p v)) \<noteq> length (decoders v) \<longrightarrow>
        sv_isSharing p \<and> sv_currentFrame p \<noteq> None \<and> jmuxerRef v = None)
   \<and> (live (commits cs initial_view) i \<and> live (commits cs initial_view) j \<longrightarrow> i = j)
   \<and> (jmuxerRef v = None \<and> \<not> ctor_throws rt
        \<and> fresh_frames (dep_currentFrame v) (f # map snd fs) \<longrightarrow>
        jmuxerRef (commits (map sharing_frame ((rt, f) # fs)) v) = Some (length (decoders v))
        \<and> decoders (commits (map sharing_frame ((rt, f) # fs)) v)
            = decoders v @ [\<lparr> destroy_called = False,
                              fed = List.map_filter payload_bytes (f # map snd fs) \<rparr>])
   \<and> (\<not> sv_isSharing p \<longrightarrow>
        jmuxerRef (commit rt p (commits cs initial_view)) = None
        \<and> \<not> live (commit rt p (commits cs initial_view)) i)
   \<and> (jmuxerRef v = None \<and> ctor_throws rt \<and> fresh_frames (dep_currentFrame v) [f] \<longrightarrow>
        commit rt \<lparr> sv_isSharing = True, sv_currentFrame = Some f \<rparr> v
          = v\<lparr> view_console := view_console v @ [InitError], mounted := True,
               dep_isSharing := True, dep_currentFrame := Some f \<rparr>)"
proof -
  note inv = commits_preserve_inv [OF decoder_inv_initial, of cs]
  have mount: "jmuxerRef (commit rt \<lparr> sv_isSharing = False, sv_currentFrame = None \<rparr> initial_view) = None"
    "decoders (commit rt \<lparr> sv_isSharing = False, sv_currentFrame = None \<rparr> initial_view) = []"
    unfolding commit_at_mount by (simp_all add: initial_view_def)
  have one: "live (commits cs initial_view) i \<and> live (commits cs initial_view) j \<longrightarrow> i = j"
    using at_most_one_live [OF inv, of i j] by blast
  have stop: "\<not> sv_isSharing p \<longrightarrow>
        jmuxerRef (commit rt p (commits cs initial_view)) = None
        \<and> \<not> live (commit rt p (commits cs initial_view)) i"
    using commit_stop [OF inv, of p] by blast
  show ?thesis
    using mount one stop commit_creates_only_on_frame [of rt p v] feed_run [of v rt f fs]
      commit_ctor_fails [of v f rt]
    by blast
qed

lemma waiting_view_eq:
  "waiting_view = initial_view\<lparr> mounted := True, dep_isSharing := True \<rparr>"
  by (simp add: waiting_view_def commit_def initial_view_def init_effect_def
        cleanup_effect_def feed_effect_def videoRef_def ok_runtime_def Let_def)

theorem decoder_lifecycle_witness:
  "jmuxerRef waiting_view = None \<and> decoders waiting_view = []
   \<and> jmuxerRef decoding_view = Some 0
   \<and> decoders decoding_view
       = [\<lparr> destroy_called = False, fed = [sps_unit, slice_unit] \<rparr>]
   \<and> live decoding_view 0
   \<and> jmuxerRef (commit ok_runtime \<lparr> sv_isSharing = False, sv_currentFrame = None \<rparr>
                  decoding_view) = None
   \<and> \<not> live (commit ok_runtime \<lparr> sv_isSharing = False, sv_currentFrame = None \<rparr>
                  decoding_view) 0
   \<and> commit failing_ctor \<lparr> sv_isSharing = True, sv_currentFrame = Some au1 \<rparr> waiting_view
       = waiting_view\<lparr> view_console := [InitError], dep_currentFrame := Some au1 \<rparr>
   \<and> jmuxerRef (commits (map sharing_frame [(ok_runtime, au2)])
                  (commit failing_ctor \<lparr> sv_isSharing = True, sv_currentFrame = Some au1 \<rparr>
                     waiting_view)) = Some 0
   \<and> length (decoders (commit ok_runtime \<lparr> sv_isSharing = True, sv_currentFrame = Some au1 \<rparr>
                             waiting_view)) \<noteq> length (decoders waiting_view)"
proof -
  note w = waiting_view_eq
  let ?stop = "\<lparr> sv_isSharing = False, sv_currentFrame = None \<rparr>"
  let ?cs = "[(ok_runtime, ?stop), (ok_runtime, \<lparr> sv_isSharing = True, sv_currentFrame = None \<rparr>)]
             @ map sharing_frame [(ok_runtime, au1), (ok_runtime, au2)]"
  let ?failed = "commit failing_ctor \<lparr> sv_isSharing = True, sv_currentFrame = Some au1 \<rparr> waiting_view"
  have run: "commits ?cs initial_view = decoding_view"
    by (simp add: decoding_view_def waiting_view_def sharing_frame_def)
  have w0: "jmuxerRef waiting_view = None" "decoders waiting_view = []"
    "view_console waiting_view = []" "mounted waiting_view" "dep_isSharing waiting_view"
    "dep_currentFrame waiting_view = None"
    by (simp_all add: w initial_view_def)
  have h1: "jmuxerRef waiting_view = None \<and> \<not> ctor_throws ok_runtime
            \<and> fresh_frames (dep_currentFrame waiting_view) (au1 # map snd [(ok_runtime, au2)])"
    by (simp add: w0 ok_runtime_def au1_def au2_def)
  have h2: "\<not> sv_isSharing ?stop" by simp
  have h3: "jmuxerRef waiting_view = None \<and> ctor_throws failing_ctor
            \<and> fresh_frames (dep_currentFrame waiting_view) [au1]"
    by (simp add: w0 failing_ctor_def)
  note t1 = decoder_lifecycle [where rt = ok_runtime and p = "?stop" and v = waiting_view
        and cs = "?cs" and i = 0 and j = 0 and f = au1 and fs = "[(ok_runtime, au2)]"]
  note t2 = decoder_lifecycle [where rt = failing_ctor and p = "?stop" and v = waiting_view
        and cs = "[]" and i = 0 and j = 0 and f = au1 and fs = "[]"]
  from t1 h1 have a: "jmuxerRef decoding_view = Some 0"
    "decoders decoding_view
       = [\<lparr> destroy_called = False, fed = [sps_unit, slice_unit] \<rparr>]"
    by (simp_all add: decoding_view_def w0 List.map_filter_simps payload_bytes_def
          au1_def au2_def)
  from t1 h2 have b: "jmuxerRef (commit ok_runtime ?stop decoding_view) = None"
    "\<not> live (commit ok_runtime ?stop decoding_view) 0"
    unfolding run by simp_all
  from t2 h3 have f0: "?failed = waiting_view\<lparr> view_console := view_console waiting_view @ [InitError],
                                   mounted := True, dep_isSharing := True,
                                   dep_currentFrame := Some au1 \<rparr>"
    by blast
  have f1: "waiting_view\<lparr> view_console := view_console waiting_view @ [InitError],
                         mounted := True, dep_isSharing := True, dep_currentFrame := Some au1 \<rparr>
              = waiting_view\<lparr> view_console := [InitError], dep_currentFrame := Some au1 \<rparr>"
    by (simp add: w initial_view_def)
  have f: "?failed = waiting_view\<lparr> view_console := [InitError], dep_currentFrame := Some au1 \<rparr>"
    using f0 f1 by (rule trans)
  have h4: "jmuxerRef ?failed = None \<and> \<not> ctor_throws ok_runtime
            \<and> fresh_frames (dep_currentFrame ?failed) (au2 # map snd [])"
    unfolding f by (simp add: w0 ok_runtime_def au1_def au2_def)
  note t3 = decoder_lifecycle [where rt = ok_runtime and p = "?stop" and v = "?failed"
        and cs = "[]" and i = 0 and j = 0 and f = au2 and fs = "[]"]
  from t3 h4 have c: "jmuxerRef (commits (map sharing_frame [(ok_runtime, au2)]) ?failed) = Some 0"
    unfolding f by (simp add: w0)
  have h5: "fresh_frames (dep_currentFrame waiting_view) [au1]"
    by (simp add: w0)
  have "\<not> ctor_throws ok_runtime" by (simp add: ok_runtime_def)
  note created = commit_first_frame(2) [OF w0(1) h5 this]
  have d: "length (decoders (commit ok_runtime \<lparr> sv_isSharing = True, sv_currentFrame = Some au1 \<rparr>
                              waiting_view)) \<noteq> length (decoders waiting_view)"
    by (simp add: created)
  note t4 = decoder_lifecycle [where rt = ok_runtime
        and p = "\<lparr> sv_isSharing = True, sv_currentFrame = Some au1 \<rparr>" and v = waiting_view
        and cs = "[]" and i = 0 and j = 0 and f = au1 and fs = "[]"]
  show ?thesis
    using w0(1,2) a b f c d t4 by (simp add: live_def)
qed

end
